theory Spec2Isabelle
  imports Main "HOL-Library.Word"
begin

section \<open>The Advisor MCP tool dispatcher (src/index.ts)\<close>

text \<open>
  The class \<^verbatim>\<open>MyMCP\<close> of \<^verbatim>\<open>src/index.ts\<close> registers, in \<^verbatim>\<open>init\<close>, either the single
  tool \<^verbatim>\<open>config_error\<close> or six tools that each forward one call to an HTTP backend. The
  two other files of the repository are earlier revisions of the same class; the
  development follows \<^verbatim>\<open>src/index.ts\<close>.

  A handler is an \<^verbatim>\<open>async\<close> function. Its model returns the list of requests it handed
  to \<^verbatim>\<open>fetch\<close>, in order, and how it ended: with a reply, or with the exception that
  rejects its promise.
\<close>

subsection \<open>Strings\<close>

text \<open>
  A JavaScript string is a sequence of UTF-16 code units; \<^verbatim>\<open>length\<close>, \<^verbatim>\<open>slice\<close> and
  \<^verbatim>\<open>trim\<close> count code units. \<open>js\<close> turns an ASCII literal into such a string.
\<close>

type_synonym unit16 = "16 word"
type_synonym jsstring = "unit16 list"

definition js :: "string \<Rightarrow> jsstring" where
  "js s = map of_char s"

text \<open>
  \<^verbatim>\<open>String.prototype.trim\<close> removes WhiteSpace and LineTerminator code points from both
  ends: TAB, LF, VT, FF, CR, SP, NBSP, the category Zs and LS, PS, ZWNBSP. All of them
  are single code units.
\<close>

definition isWhiteSpace :: "unit16 \<Rightarrow> bool" where
  "isWhiteSpace c \<longleftrightarrow>
     c \<in> set [0x0009, 0x000A, 0x000B, 0x000C, 0x000D, 0x0020, 0x00A0, 0x1680,
               0x2000, 0x2001, 0x2002, 0x2003, 0x2004, 0x2005, 0x2006, 0x2007,
               0x2008, 0x2009, 0x200A, 0x2028, 0x2029, 0x202F, 0x205F, 0x3000, 0xFEFF]"

definition trim :: "jsstring \<Rightarrow> jsstring" where
  "trim s = rev (dropWhile isWhiteSpace (rev (dropWhile isWhiteSpace s)))"

text \<open>\<^verbatim>\<open>s.slice(0, n)\<close> for a non-negative integer \<open>n\<close>.\<close>

definition slice0 :: "nat \<Rightarrow> jsstring \<Rightarrow> jsstring" where
  "slice0 n s = take n s"

text \<open>
  \<^verbatim>\<open>String(n)\<close> and \<^verbatim>\<open>`${n}`\<close> for a non-negative integer below \<open>10\<^sup>2\<^sup>1\<close>: its decimal
  digits. The handlers print a validated \<^verbatim>\<open>limit\<close> (at most 500) and an HTTP status.
\<close>

definition digit :: "nat \<Rightarrow> unit16" where
  "digit d = of_nat (48 + d)"

fun String_nat :: "nat \<Rightarrow> jsstring" where
  "String_nat n = (if n < 10 then [digit n] else String_nat (n div 10) @ [digit (n mod 10)])"

declare String_nat.simps [simp del]

text \<open>\<^verbatim>\<open>parts.join(sep)\<close>.\<close>

fun join :: "jsstring \<Rightarrow> jsstring list \<Rightarrow> jsstring" where
  "join sep [] = []"
| "join sep [x] = x"
| "join sep (x # y # ys) = x @ sep @ join sep (y # ys)"

subsection \<open>Code points, UTF-8 and percent-encoding\<close>

definition isHigh :: "unit16 \<Rightarrow> bool" where
  "isHigh c \<longleftrightarrow> 0xD800 \<le> c \<and> c \<le> 0xDBFF"

definition isLow :: "unit16 \<Rightarrow> bool" where
  "isLow c \<longleftrightarrow> 0xDC00 \<le> c \<and> c \<le> 0xDFFF"

text \<open>
  The code points of a string, left to right. A surrogate pair is one code point; a
  surrogate that is not part of a pair is \<open>None\<close>.
\<close>

fun codePoints :: "jsstring \<Rightarrow> nat option list" where
  "codePoints [] = []"
| "codePoints [c] = [if isHigh c \<or> isLow c then None else Some (unat c)]"
| "codePoints (c # d # cs) =
     (if isHigh c \<and> isLow d
      then Some (0x10000 + (unat c - 0xD800) * 0x400 + (unat d - 0xDC00)) # codePoints cs
      else (if isHigh c \<or> isLow c then None else Some (unat c)) # codePoints (d # cs))"

definition utf8 :: "nat \<Rightarrow> nat list" where
  "utf8 cp =
     (if cp < 0x80 then [cp]
      else if cp < 0x800 then [0xC0 + cp div 0x40, 0x80 + cp mod 0x40]
      else if cp < 0x10000 then
        [0xE0 + cp div 0x1000, 0x80 + cp div 0x40 mod 0x40, 0x80 + cp mod 0x40]
      else
        [0xF0 + cp div 0x40000, 0x80 + cp div 0x1000 mod 0x40,
         0x80 + cp div 0x40 mod 0x40, 0x80 + cp mod 0x40])"

definition hexDigit :: "nat \<Rightarrow> unit16" where
  "hexDigit d = (if d < 10 then of_nat (48 + d) else of_nat (55 + d))"

text \<open>One byte as \<^verbatim>\<open>%XX\<close>, with upper-case hexadecimal digits.\<close>

definition pct :: "nat \<Rightarrow> jsstring" where
  "pct b = [0x25, hexDigit (b div 16), hexDigit (b mod 16)]"

definition isAlnum :: "nat \<Rightarrow> bool" where
  "isAlnum cp \<longleftrightarrow> (0x30 \<le> cp \<and> cp \<le> 0x39) \<or> (0x41 \<le> cp \<and> cp \<le> 0x5A) \<or> (0x61 \<le> cp \<and> cp \<le> 0x7A)"

text \<open>
  \<^verbatim>\<open>encodeURIComponent\<close> keeps the letters, the digits and \<^verbatim>\<open>- _ . ! ~ * ' ( )\<close>, writes
  every other code point as the escaped bytes of its UTF-8 encoding, and throws a
  \<^verbatim>\<open>URIError\<close> on a surrogate that is not part of a pair.
\<close>

datatype error = URIError | TypeError | SyntaxError | NetworkError

definition uriUnreserved :: "nat \<Rightarrow> bool" where
  "uriUnreserved cp \<longleftrightarrow>
     isAlnum cp \<or> cp \<in> set [0x2D, 0x5F, 0x2E, 0x21, 0x7E, 0x2A, 0x27, 0x28, 0x29]"

definition uriPiece :: "nat \<Rightarrow> jsstring" where
  "uriPiece cp = (if uriUnreserved cp then [of_nat cp] else concat (map pct (utf8 cp)))"

fun encodePoints :: "nat option list \<Rightarrow> error + jsstring" where
  "encodePoints [] = Inr []"
| "encodePoints (None # cps) = Inl URIError"
| "encodePoints (Some cp # cps) =
     (case encodePoints cps of Inl e \<Rightarrow> Inl e | Inr s \<Rightarrow> Inr (uriPiece cp @ s))"

definition encodeURIComponent :: "jsstring \<Rightarrow> error + jsstring" where
  "encodeURIComponent s = encodePoints (codePoints s)"

subsection \<open>URLSearchParams\<close>

text \<open>
  A \<^verbatim>\<open>URLSearchParams\<close> object is its list of name-value pairs. \<^verbatim>\<open>set\<close> overwrites the
  first pair of that name and deletes the others, or appends a pair. \<^verbatim>\<open>toString\<close> is the
  \<^verbatim>\<open>application/x-www-form-urlencoded\<close> serializer: letters, digits and \<^verbatim>\<open>* - . _\<close> stay,
  a space becomes \<^verbatim>\<open>+\<close>, every other byte of the UTF-8 encoding is escaped; an unpaired
  surrogate is encoded as U+FFFD.
\<close>

type_synonym URLSearchParams = "(jsstring \<times> jsstring) list"

fun URLSearchParams_set :: "URLSearchParams \<Rightarrow> jsstring \<Rightarrow> jsstring \<Rightarrow> URLSearchParams" where
  "URLSearchParams_set [] name v = [(name, v)]"
| "URLSearchParams_set ((k, w) # ps) name v =
     (if k = name then (k, v) # filter (\<lambda>p. fst p \<noteq> name) ps
      else (k, w) # URLSearchParams_set ps name v)"

definition formPiece :: "nat \<Rightarrow> jsstring" where
  "formPiece cp =
     (if cp = 0x20 then [0x2B]
      else if isAlnum cp \<or> cp \<in> set [0x2A, 0x2D, 0x2E, 0x5F] then [of_nat cp]
      else concat (map pct (utf8 cp)))"

definition formEncode :: "jsstring \<Rightarrow> jsstring" where
  "formEncode s =
     concat (map (\<lambda>cp. formPiece (case cp of None \<Rightarrow> 0xFFFD | Some c \<Rightarrow> c)) (codePoints s))"

definition URLSearchParams_toString :: "URLSearchParams \<Rightarrow> jsstring" where
  "URLSearchParams_toString ps =
     join (js ''&'') (map (\<lambda>(k, v). formEncode k @ js ''='' @ formEncode v) ps)"

subsection \<open>Values and JSON\<close>

text \<open>
  The values a handler sees: what \<^verbatim>\<open>res.json()\<close> parsed, and \<^verbatim>\<open>undefined\<close>. An object is
  the list of its own properties, in the order in which the engine enumerates them. The
  handlers never compute with a number, they only print it; the type of numbers is a
  parameter \<open>'n\<close>.
\<close>

datatype 'n jsvalue = JUndefined | JNull | JBool bool | JNum 'n | JStr jsstring
  | JArr "'n jsvalue list" | JObj "(jsstring \<times> 'n jsvalue) list"

text \<open>
  \<^verbatim>\<open>data.name\<close>, for the three names the handlers read (\<^verbatim>\<open>items\<close>, \<^verbatim>\<open>item\<close>, \<^verbatim>\<open>rationale\<close>):
  a \<^verbatim>\<open>TypeError\<close> on \<^verbatim>\<open>null\<close> and \<^verbatim>\<open>undefined\<close>, the own property of an object, and
  \<^verbatim>\<open>undefined\<close> otherwise, since no prototype of a parsed value has a property of one of
  these names. \<^verbatim>\<open>data?.name\<close> is \<^verbatim>\<open>undefined\<close> where \<^verbatim>\<open>data.name\<close> throws.
\<close>

fun getProp :: "'n jsvalue \<Rightarrow> jsstring \<Rightarrow> error + 'n jsvalue" where
  "getProp JUndefined name = Inl TypeError"
| "getProp JNull name = Inl TypeError"
| "getProp (JObj ps) name = Inr (case map_of ps name of None \<Rightarrow> JUndefined | Some v \<Rightarrow> v)"
| "getProp v name = Inr JUndefined"

definition optGet :: "'n jsvalue \<Rightarrow> jsstring \<Rightarrow> 'n jsvalue" where
  "optGet data name = (case getProp data name of Inl e \<Rightarrow> JUndefined | Inr v \<Rightarrow> v)"

fun isArray :: "'n jsvalue \<Rightarrow> bool" where
  "isArray (JArr vs) = True"
| "isArray v = False"

fun isString :: "'n jsvalue \<Rightarrow> bool" where
  "isString (JStr s) = True"
| "isString v = False"

text \<open>\<^verbatim>\<open>a ?? b\<close>: \<open>b\<close> when \<open>a\<close> is \<^verbatim>\<open>undefined\<close> or \<^verbatim>\<open>null\<close>.\<close>

fun nullish :: "'n jsvalue \<Rightarrow> 'n jsvalue \<Rightarrow> 'n jsvalue" where
  "nullish JUndefined b = b"
| "nullish JNull b = b"
| "nullish a b = a"

text \<open>
  \<^verbatim>\<open>JSON.stringify(v, null, gap)\<close> on such a value. A string is quoted with the escapes
  of QuoteJSONString; \<^verbatim>\<open>undefined\<close> has no text at the top, is \<^verbatim>\<open>null\<close> in an array and
  is left out of an object. The text of a number is the engine's (\<open>num\<close>).
\<close>

definition hexLower :: "nat \<Rightarrow> unit16" where
  "hexLower d = (if d < 10 then of_nat (48 + d) else of_nat (87 + d))"

definition unicodeEscape :: "unit16 \<Rightarrow> jsstring" where
  "unicodeEscape c =
     [0x5C, 0x75, hexLower (unat c div 4096), hexLower (unat c div 256 mod 16),
      hexLower (unat c div 16 mod 16), hexLower (unat c mod 16)]"

definition quoteUnit :: "unit16 \<Rightarrow> jsstring" where
  "quoteUnit c =
     (if c = 0x08 then [0x5C, 0x62]
      else if c = 0x09 then [0x5C, 0x74]
      else if c = 0x0A then [0x5C, 0x6E]
      else if c = 0x0C then [0x5C, 0x66]
      else if c = 0x0D then [0x5C, 0x72]
      else if c = 0x22 then [0x5C, 0x22]
      else if c = 0x5C then [0x5C, 0x5C]
      else if c < 0x20 \<or> isHigh c \<or> isLow c then unicodeEscape c
      else [c])"

fun quoteUnits :: "jsstring \<Rightarrow> jsstring" where
  "quoteUnits [] = []"
| "quoteUnits [c] = quoteUnit c"
| "quoteUnits (c # d # cs) =
     (if isHigh c \<and> isLow d then c # d # quoteUnits cs else quoteUnit c @ quoteUnits (d # cs))"

definition QuoteJSONString :: "jsstring \<Rightarrow> jsstring" where
  "QuoteJSONString s = [0x22] @ quoteUnits s @ [0x22]"

definition wrap :: "jsstring \<Rightarrow> jsstring \<Rightarrow> unit16 \<Rightarrow> unit16 \<Rightarrow> jsstring list \<Rightarrow> jsstring" where
  "wrap gap ind l r parts =
     (if parts = [] then [l, r]
      else if gap = [] then [l] @ join [0x2C] parts @ [r]
      else [l, 0x0A] @ ind @ gap @ join ([0x2C, 0x0A] @ ind @ gap) parts @ [0x0A] @ ind @ [r])"

fun SerializeJSONProperty ::
  "('n \<Rightarrow> jsstring) \<Rightarrow> jsstring \<Rightarrow> jsstring \<Rightarrow> 'n jsvalue \<Rightarrow> jsstring option" where
  "SerializeJSONProperty num gap ind JUndefined = None"
| "SerializeJSONProperty num gap ind JNull = Some (js ''null'')"
| "SerializeJSONProperty num gap ind (JBool b) = Some (if b then js ''true'' else js ''false'')"
| "SerializeJSONProperty num gap ind (JNum n) = Some (num n)"
| "SerializeJSONProperty num gap ind (JStr s) = Some (QuoteJSONString s)"
| "SerializeJSONProperty num gap ind (JArr vs) =
     Some (wrap gap ind 0x5B 0x5D
       (map (\<lambda>v. case SerializeJSONProperty num gap (ind @ gap) v of
                 None \<Rightarrow> js ''null''
               | Some s \<Rightarrow> s) vs))"
| "SerializeJSONProperty num gap ind (JObj ps) =
     Some (wrap gap ind 0x7B 0x7D
       (concat (map (\<lambda>(k, v). case SerializeJSONProperty num gap (ind @ gap) v of
                   None \<Rightarrow> []
                 | Some s \<Rightarrow>
                     [QuoteJSONString k @ js '':'' @ (if gap = [] then [] else js '' '') @ s])
          ps)))"

text \<open>
  The engine: what the model takes from the JavaScript engine as it is.
  \<^verbatim>\<open>String.prototype.toUpperCase\<close> follows the Unicode case tables, and the text of a
  number is that of a double; the handlers are defined for any such pair.
\<close>

record 'n engine =
  toUpperCase :: "jsstring \<Rightarrow> jsstring"
  numberText :: "'n \<Rightarrow> jsstring"

text \<open>\<^verbatim>\<open>JSON.stringify(v)\<close> and \<^verbatim>\<open>JSON.stringify(v, null, 2)\<close>: a string, or \<^verbatim>\<open>undefined\<close>.\<close>

definition JSON_stringify :: "'n engine \<Rightarrow> 'n jsvalue \<Rightarrow> 'n jsvalue" where
  "JSON_stringify E v =
     (case SerializeJSONProperty (numberText E) [] [] v of
        None \<Rightarrow> JUndefined
      | Some s \<Rightarrow> JStr s)"

definition JSON_stringify2 :: "'n engine \<Rightarrow> 'n jsvalue \<Rightarrow> 'n jsvalue" where
  "JSON_stringify2 E v =
     (case SerializeJSONProperty (numberText E) (js ''  '') [] v of
        None \<Rightarrow> JUndefined
      | Some s \<Rightarrow> JStr s)"

text \<open>
  An engine for evaluating the handlers on ASCII input, where it agrees with JavaScript:
  \<^verbatim>\<open>toUpperCase\<close> maps \<^verbatim>\<open>a\<close>..\<^verbatim>\<open>z\<close> to \<^verbatim>\<open>A\<close>..\<^verbatim>\<open>Z\<close>, and numbers are integers in decimal.
\<close>

definition asciiUpper :: "unit16 \<Rightarrow> unit16" where
  "asciiUpper c = (if 0x61 \<le> c \<and> c \<le> 0x7A then c - 0x20 else c)"

definition intText :: "int \<Rightarrow> jsstring" where
  "intText i = (if i < 0 then 0x2D # String_nat (nat (- i)) else String_nat (nat i))"

definition asciiEngine :: "int engine" where
  "asciiEngine = \<lparr>toUpperCase = map asciiUpper, numberText = intText\<rparr>"

subsection \<open>Requests, responses and replies\<close>

text \<open>
  The arguments of \<^verbatim>\<open>fetch(url, init)\<close>: \<^verbatim>\<open>method\<close> is GET where \<^verbatim>\<open>init\<close> names none, \<^verbatim>\<open>cf\<close> is
  the Workers cache directive.
\<close>

datatype http_method = GET | POST

record cf_options =
  cacheTtl :: nat
  cacheEverything :: bool

record request =
  "method" :: http_method
  url :: jsstring
  headers :: "(jsstring \<times> jsstring) list"
  cf :: "cf_options option"
  body :: "jsstring option"

text \<open>
  A response is its status and what the two readers of its body give: \<^verbatim>\<open>res.text()\<close> and
  \<^verbatim>\<open>res.json()\<close>, each \<open>None\<close> when its promise rejects (for \<^verbatim>\<open>json\<close>: the body is not
  JSON). A handler calls at most one of them. The backend is a function from the request
  to the response, \<open>None\<close> when \<^verbatim>\<open>fetch\<close> itself rejects.
\<close>

record 'n response =
  status :: nat
  bodyText :: "jsstring option"
  bodyJson :: "'n jsvalue option"

definition ok :: "'n response \<Rightarrow> bool" where
  "ok res \<longleftrightarrow> 200 \<le> status res \<and> status res \<le> 299"

type_synonym 'n backend = "request \<Rightarrow> 'n response option"

record 'n content_block =
  type :: jsstring
  "text" :: "'n jsvalue"

record 'n reply =
  content :: "'n content_block list"

record 'n run =
  requests :: "request list"
  result :: "error + 'n reply"

text \<open>\<^verbatim>\<open>{ content: [{ type: "text", text: t }] }\<close>\<close>

definition textReply :: "'n jsvalue \<Rightarrow> 'n reply" where
  "textReply t = \<lparr>content = [\<lparr>type = js ''text'', text = t\<rparr>]\<rparr>"

text \<open>
  The end of a handler, by \<^verbatim>\<open>return\<close> or \<^verbatim>\<open>throw\<close>: no further request is issued.
\<close>

definition finish :: "error + 'n reply \<Rightarrow> 'n run" where
  "finish r = \<lparr>requests = [], result = r\<rparr>"

text \<open>
  \<^verbatim>\<open>const res = await fetch(...)\<close> followed by the rest of the handler: the request is
  recorded, and the requests of the rest follow it. When \<^verbatim>\<open>fetch\<close> rejects, the handler
  ends with that exception.
\<close>

definition awaitFetch ::
  "'n backend \<Rightarrow> request \<Rightarrow> ('n response \<Rightarrow> 'n run) \<Rightarrow> 'n run" where
  "awaitFetch backend rq rest =
     (case backend rq of
        None \<Rightarrow> \<lparr>requests = [rq], result = Inl NetworkError\<rparr>
      | Some res \<Rightarrow> \<lparr>requests = rq # requests (rest res), result = result (rest res)\<rparr>)"

text \<open>\<^verbatim>\<open>await res.text().catch(() => "")\<close>\<close>

definition textOrEmpty :: "'n response \<Rightarrow> jsstring" where
  "textOrEmpty res = (case bodyText res of None \<Rightarrow> [] | Some b \<Rightarrow> b)"

subsection \<open>Configuration\<close>

text \<open>
  \<^verbatim>\<open>this.env.API_BASE\<close> is \<open>None\<close> when the variable is not set.
  \<^verbatim>\<open>(this.env.API_BASE || "").replace(/\/+$/, "")\<close> removes the slashes at the end.
\<close>

record env =
  API_BASE :: "jsstring option"

definition normalizeBase :: "env \<Rightarrow> jsstring" where
  "normalizeBase e =
     rev (dropWhile (\<lambda>c. c = 0x2F) (rev (case API_BASE e of None \<Rightarrow> [] | Some s \<Rightarrow> s)))"

subsection \<open>The handlers\<close>

definition config_error :: "'n jsvalue \<Rightarrow> 'n run" where
  "config_error args =
     finish (Inr (textReply
       (JStr (js ''Missing API_BASE env var. Set it in wrangler.jsonc under 'vars'.''))))"

definition list_universe ::
  "'n engine \<Rightarrow> env \<Rightarrow> 'n backend \<Rightarrow> jsstring option \<Rightarrow> nat \<Rightarrow> 'n run" where
  "list_universe E e backend sector limit =
     (let base = normalizeBase e;
          qs = [(js ''limit'', String_nat limit)];
          qs = (case sector of
                  None \<Rightarrow> qs
                | Some s \<Rightarrow>
                    if s \<noteq> [] \<and> trim s \<noteq> [] then URLSearchParams_set qs (js ''sector'') (trim s)
                    else qs);
          url = base @ js ''/universe?'' @ URLSearchParams_toString qs
      in awaitFetch backend
           \<lparr>method = GET, url = url,
            headers = [(js ''cache-control'', js ''no-store'')],
            cf = Some \<lparr>cacheTtl = 0, cacheEverything = False\<rparr>,
            body = None\<rparr>
           (\<lambda>res.
              if \<not> ok res then
                finish (Inr (textReply
                  (JStr (js ''Backend /universe failed: '' @ String_nat (status res)))))
              else
                case bodyJson res of
                  None \<Rightarrow> finish (Inl SyntaxError)
                | Some data \<Rightarrow>
                    let items = (if isArray (optGet data (js ''items''))
                                 then optGet data (js ''items'') else JArr [])
                    in finish (Inr (textReply (JSON_stringify2 E items)))))"

text \<open>\<^verbatim>\<open>explain_universe\<close> reads the \<^verbatim>\<open>API_BASE\<close> that \<^verbatim>\<open>init\<close> computed.\<close>

definition explain_universe ::
  "'n engine \<Rightarrow> jsstring \<Rightarrow> 'n backend \<Rightarrow> 'n \<Rightarrow> jsstring list \<Rightarrow> 'n run" where
  "explain_universe E base backend risk universe =
     awaitFetch backend
       \<lparr>method = POST, url = base @ js ''/explain'',
        headers = [(js ''content-type'', js ''application/json'')],
        cf = None,
        body = SerializeJSONProperty (numberText E) [] []
                 (JObj [(js ''risk'', JNum risk), (js ''universe'', JArr (map JStr universe))])\<rparr>
       (\<lambda>res.
          if \<not> ok res then
            finish (Inr (textReply
              (JStr (js ''Backend /explain failed: '' @ String_nat (status res)))))
          else
            case bodyJson res of
              None \<Rightarrow> finish (Inl SyntaxError)
            | Some data \<Rightarrow>
                let t = nullish (optGet data (js ''rationale'')) (JStr (js ''No rationale.''))
                in finish (Inr (textReply t)))"

definition get_asset_details :: "'n engine \<Rightarrow> env \<Rightarrow> 'n backend \<Rightarrow> jsstring \<Rightarrow> 'n run" where
  "get_asset_details E e backend ticker =
     (let base = normalizeBase e in
      case encodeURIComponent ticker of
        Inl err \<Rightarrow> finish (Inl err)
      | Inr t \<Rightarrow>
          awaitFetch backend
            \<lparr>method = GET, url = base @ js ''/asset/'' @ t,
             headers = [(js ''cache-control'', js ''no-store'')],
             cf = Some \<lparr>cacheTtl = 0, cacheEverything = False\<rparr>,
             body = None\<rparr>
            (\<lambda>res.
               if \<not> ok res then
                 finish (Inr (textReply
                   (JStr (js ''Backend /asset failed: '' @ String_nat (status res)))))
               else
                 case bodyJson res of
                   None \<Rightarrow> finish (Inl SyntaxError)
                 | Some data \<Rightarrow>
                     (case getProp data (js ''item'') of
                        Inl err \<Rightarrow> finish (Inl err)
                      | Inr item \<Rightarrow> finish (Inr (textReply (JSON_stringify2 E item))))))"

definition search_assets ::
  "'n engine \<Rightarrow> env \<Rightarrow> 'n backend \<Rightarrow> jsstring \<Rightarrow> nat \<Rightarrow> 'n run" where
  "search_assets E e backend q limit =
     (let base = normalizeBase e;
          qs = [(js ''q'', q), (js ''limit'', String_nat limit)]
      in awaitFetch backend
           \<lparr>method = GET, url = base @ js ''/search?'' @ URLSearchParams_toString qs,
            headers = [(js ''cache-control'', js ''no-store'')],
            cf = Some \<lparr>cacheTtl = 0, cacheEverything = False\<rparr>,
            body = None\<rparr>
           (\<lambda>res.
              if \<not> ok res then
                finish (Inr (textReply
                  (JStr (js ''Backend /search failed: '' @ String_nat (status res)))))
              else
                case bodyJson res of
                  None \<Rightarrow> finish (Inl SyntaxError)
                | Some data \<Rightarrow>
                    let items = (if isArray (optGet data (js ''items''))
                                 then optGet data (js ''items'') else JArr [])
                    in finish (Inr (textReply (JSON_stringify2 E items)))))"

text \<open>
  \<^verbatim>\<open>Array.from(new Set(xs))\<close>: a \<^verbatim>\<open>Set\<close> keeps its elements in insertion order and ignores
  the insertion of an element it has.
\<close>

fun setInsertAll :: "'a list \<Rightarrow> 'a list \<Rightarrow> 'a list" where
  "setInsertAll acc [] = acc"
| "setInsertAll acc (x # xs) = setInsertAll (if x \<in> set acc then acc else acc @ [x]) xs"

definition arrayFromSet :: "'a list \<Rightarrow> 'a list" where
  "arrayFromSet xs = setInsertAll [] xs"

text \<open>\<^verbatim>\<open>xs.map(f)\<close> for an \<open>f\<close> that can throw: the first exception ends the loop.\<close>

fun mapThrowing :: "('a \<Rightarrow> error + 'b) \<Rightarrow> 'a list \<Rightarrow> error + 'b list" where
  "mapThrowing f [] = Inr []"
| "mapThrowing f (x # xs) =
     (case f x of
        Inl err \<Rightarrow> Inl err
      | Inr y \<Rightarrow> (case mapThrowing f xs of Inl err \<Rightarrow> Inl err | Inr ys \<Rightarrow> Inr (y # ys)))"

definition cleaned :: "'n engine \<Rightarrow> jsstring list \<Rightarrow> jsstring list" where
  "cleaned E tickers =
     take 50 (arrayFromSet (filter (\<lambda>t. t \<noteq> []) (map (\<lambda>t. toUpperCase E (trim t)) tickers)))"

definition ingest_from_finnhub ::
  "'n engine \<Rightarrow> env \<Rightarrow> 'n backend \<Rightarrow> jsstring list \<Rightarrow> 'n run" where
  "ingest_from_finnhub E e backend tickers =
     (let base = normalizeBase e;
          cl = cleaned E tickers
      in if cl = [] then finish (Inr (textReply (JStr (js ''No valid tickers provided.''))))
         else
           case mapThrowing (\<lambda>t. case encodeURIComponent t of
                                    Inl err \<Rightarrow> Inl err
                                  | Inr t' \<Rightarrow> Inr (js ''tickers='' @ t')) cl of
             Inl err \<Rightarrow> finish (Inl err)
           | Inr parts \<Rightarrow>
               let qs = join (js ''&'') parts in
               awaitFetch backend
                 \<lparr>method = GET, url = base @ js ''/ingest/finnhub?'' @ qs,
                  headers = [(js ''cache-control'', js ''no-store'')],
                  cf = Some \<lparr>cacheTtl = 0, cacheEverything = False\<rparr>,
                  body = None\<rparr>
                 (\<lambda>res.
                    if \<not> ok res then
                      let b = textOrEmpty res in
                      finish (Inr (textReply
                        (JStr (js ''Backend /ingest/finnhub '' @ String_nat (status res)
                           @ js '': '' @ slice0 200 b))))
                    else
                      case bodyJson res of
                        None \<Rightarrow> finish (Inl SyntaxError)
                      | Some data \<Rightarrow> finish (Inr (textReply (JSON_stringify2 E data)))))"

definition run_fundamentals :: "'n engine \<Rightarrow> env \<Rightarrow> 'n backend \<Rightarrow> jsstring \<Rightarrow> 'n run" where
  "run_fundamentals E e backend ticker =
     (let base = normalizeBase e in
      case encodeURIComponent ticker of
        Inl err \<Rightarrow> finish (Inl err)
      | Inr t \<Rightarrow>
          awaitFetch backend
            \<lparr>method = GET, url = base @ js ''/analyze/fundamentals?ticker='' @ t,
             headers = [(js ''cache-control'', js ''no-store'')],
             cf = Some \<lparr>cacheTtl = 0, cacheEverything = False\<rparr>,
             body = None\<rparr>
            (\<lambda>res.
               if \<not> ok res then
                 let b = textOrEmpty res in
                 finish (Inr (textReply
                   (JStr (js ''Backend /analyze/fundamentals '' @ String_nat (status res)
                      @ js '': '' @ slice0 200 b))))
               else
                 case bodyJson res of
                   None \<Rightarrow> finish (Inl SyntaxError)
                 | Some data \<Rightarrow> finish (Inr (textReply (JSON_stringify2 E data)))))"

subsection \<open>Registration and dispatch\<close>

text \<open>
  \<^verbatim>\<open>init\<close> registers the tools; the result is the list of their names, in order. A tool
  call is the name of a tool with the arguments the transport has validated against the
  tool's schema and filled with the defaults.
\<close>

definition init :: "env \<Rightarrow> jsstring list" where
  "init e =
     (let base = normalizeBase e in
      if base = [] then [js ''config_error'']
      else [js ''list_universe'', js ''explain_universe'', js ''get_asset_details'',
            js ''search_assets'', js ''ingest_from_finnhub'', js ''run_fundamentals''])"

datatype 'n tool_call =
    Config_error "'n jsvalue"
  | List_universe "jsstring option" nat
  | Explain_universe 'n "jsstring list"
  | Get_asset_details jsstring
  | Search_assets jsstring nat
  | Ingest_from_finnhub "jsstring list"
  | Run_fundamentals jsstring

fun toolName :: "'n tool_call \<Rightarrow> jsstring" where
  "toolName (Config_error args) = js ''config_error''"
| "toolName (List_universe sector limit) = js ''list_universe''"
| "toolName (Explain_universe risk universe) = js ''explain_universe''"
| "toolName (Get_asset_details ticker) = js ''get_asset_details''"
| "toolName (Search_assets q limit) = js ''search_assets''"
| "toolName (Ingest_from_finnhub tickers) = js ''ingest_from_finnhub''"
| "toolName (Run_fundamentals ticker) = js ''run_fundamentals''"

text \<open>
  The schemas of the tools, on arguments of the right types. The bounds of \<^verbatim>\<open>risk\<close> (1 to 5)
  are not stated: numbers are opaque here, and the handler only prints \<^verbatim>\<open>risk\<close>.
\<close>

fun validArgs :: "'n tool_call \<Rightarrow> bool" where
  "validArgs (Config_error args) = True"
| "validArgs (List_universe sector limit) = (1 \<le> limit \<and> limit \<le> 500)"
| "validArgs (Explain_universe risk universe) = True"
| "validArgs (Get_asset_details ticker) = (1 \<le> length ticker)"
| "validArgs (Search_assets q limit) = (1 \<le> length q \<and> 1 \<le> limit \<and> limit \<le> 100)"
| "validArgs (Ingest_from_finnhub tickers) = (1 \<le> length tickers \<and> length tickers \<le> 50)"
| "validArgs (Run_fundamentals ticker) = (1 \<le> length ticker)"

fun handler :: "'n engine \<Rightarrow> env \<Rightarrow> 'n backend \<Rightarrow> 'n tool_call \<Rightarrow> 'n run" where
  "handler E e backend (Config_error args) = config_error args"
| "handler E e backend (List_universe sector limit) = list_universe E e backend sector limit"
| "handler E e backend (Explain_universe risk universe) =
     explain_universe E (normalizeBase e) backend risk universe"
| "handler E e backend (Get_asset_details ticker) = get_asset_details E e backend ticker"
| "handler E e backend (Search_assets q limit) = search_assets E e backend q limit"
| "handler E e backend (Ingest_from_finnhub tickers) = ingest_from_finnhub E e backend tickers"
| "handler E e backend (Run_fundamentals ticker) = run_fundamentals E e backend ticker"

text \<open>
  A call in a session: \<open>None\<close> when the session has no tool of that name or the arguments
  do not pass the schema (the transport answers, no handler runs).
\<close>

definition callTool :: "'n engine \<Rightarrow> env \<Rightarrow> 'n backend \<Rightarrow> 'n tool_call \<Rightarrow> 'n run option" where
  "callTool E e backend c =
     (if toolName c \<in> set (init e) \<and> validArgs c then Some (handler E e backend c) else None)"

subsection \<open>Backends and sessions for evaluation\<close>

text \<open>A backend that answers every request with the same response.\<close>

definition respond :: "'n response \<Rightarrow> 'n backend" where
  "respond res rq = Some res"

definition exampleEnv :: env where
  "exampleEnv = \<lparr>API_BASE = Some (js ''https://api.example.com/'')\<rparr>"

definition emptyObject :: "int response" where
  "emptyObject = \<lparr>status = 200, bodyText = Some (js ''{}''), bodyJson = Some (JObj [])\<rparr>"

definition serverError :: "int response" where
  "serverError = \<lparr>status = 500, bodyText = Some (js ''Internal Server Error''), bodyJson = None\<rparr>"

definition notFoundLong :: "int response" where
  "notFoundLong = \<lparr>status = 404, bodyText = Some (replicate 250 0x78), bodyJson = None\<rparr>"

definition notJson :: "int response" where
  "notJson = \<lparr>status = 200, bodyText = Some (js ''<html>''), bodyJson = None\<rparr>"

definition jsonResponse :: "'n jsvalue \<Rightarrow> 'n response" where
  "jsonResponse data = \<lparr>status = 200, bodyText = None, bodyJson = Some data\<rparr>"

subsection \<open>Response fields, the explain request and the calls without a request\<close>

text \<open>
  The field of a response object: \<open>None\<close> when the response is not an object or has no
  property of that name.
\<close>

fun field :: "'n jsvalue \<Rightarrow> jsstring \<Rightarrow> 'n jsvalue option" where
  "field (JObj ps) name = map_of ps name"
| "field v name = None"

text \<open>A POST to \<^verbatim>\<open>/explain\<close> whose body is the JSON text of \<^verbatim>\<open>{risk, universe}\<close>.\<close>

definition explainRequest :: "'n engine \<Rightarrow> jsstring \<Rightarrow> 'n \<Rightarrow> jsstring list \<Rightarrow> request" where
  "explainRequest E base risk universe =
     \<lparr>method = POST, url = base @ js ''/explain'',
      headers = [(js ''content-type'', js ''application/json'')],
      cf = None,
      body = SerializeJSONProperty (numberText E) [] []
               (JObj [(js ''risk'', JNum risk), (js ''universe'', JArr (map JStr universe))])\<rparr>"

text \<open>
  The two kinds of call that issue no request: \<^verbatim>\<open>config_error\<close>, and
  \<^verbatim>\<open>ingest_from_finnhub\<close> with an empty cleaned list.
\<close>

fun zeroRequestCall :: "'n engine \<Rightarrow> 'n tool_call \<Rightarrow> bool" where
  "zeroRequestCall E (Config_error args) = True"
| "zeroRequestCall E (Ingest_from_finnhub tickers) = (cleaned E tickers = [])"
| "zeroRequestCall E c = False"

subsection \<open>Well-formed strings and first occurrences\<close>

text \<open>\<^verbatim>\<open>String.fromCodePoint(cp)\<close>, the inverse of reading a code point.\<close>

definition fromCodePoint :: "nat \<Rightarrow> jsstring" where
  "fromCodePoint cp =
     (if cp < 0x10000 then [of_nat cp]
      else [of_nat (0xD800 + (cp - 0x10000) div 0x400), of_nat (0xDC00 + (cp - 0x10000) mod 0x400)])"

text \<open>A string is well formed when every surrogate in it is part of a pair.\<close>

definition wellFormed :: "jsstring \<Rightarrow> bool" where
  "wellFormed s \<longleftrightarrow> None \<notin> set (codePoints s)"

text \<open>Deduplication that keeps the first occurrence of a value and discards the later ones.\<close>

fun firstOccurrences :: "'a list \<Rightarrow> 'a list" where
  "firstOccurrences [] = []"
| "firstOccurrences (x # xs) = x # firstOccurrences (filter (\<lambda>y. y \<noteq> x) xs)"

text \<open>
  The strings a call hands to \<^verbatim>\<open>encodeURIComponent\<close> are well formed: the ticker of
  \<^verbatim>\<open>get_asset_details\<close> and \<^verbatim>\<open>run_fundamentals\<close>, the cleaned entries of
  \<^verbatim>\<open>ingest_from_finnhub\<close>. The other tools encode nothing with it.
\<close>

fun wellFormedArgs :: "'n engine \<Rightarrow> 'n tool_call \<Rightarrow> bool" where
  "wellFormedArgs E (Get_asset_details ticker) = wellFormed ticker"
| "wellFormedArgs E (Run_fundamentals ticker) = wellFormed ticker"
| "wellFormedArgs E (Ingest_from_finnhub tickers) = (\<forall>t \<in> set (cleaned E tickers). wellFormed t)"
| "wellFormedArgs E c = True"

subsection \<open>The failure text of a tool\<close>

text \<open>
  The path a tool's failure text names, and the two tools whose text quotes the body.
  The text is \<^verbatim>\<open>Backend <path> failed: <status>\<close>, or for those two tools
  \<^verbatim>\<open>Backend <path> <status>: <the first 200 code units of the body>\<close>.
\<close>

fun backendPath :: "'n tool_call \<Rightarrow> jsstring" where
  "backendPath (Config_error args) = []"
| "backendPath (List_universe sector limit) = js ''/universe''"
| "backendPath (Explain_universe risk universe) = js ''/explain''"
| "backendPath (Get_asset_details ticker) = js ''/asset''"
| "backendPath (Search_assets q limit) = js ''/search''"
| "backendPath (Ingest_from_finnhub tickers) = js ''/ingest/finnhub''"
| "backendPath (Run_fundamentals ticker) = js ''/analyze/fundamentals''"

fun quotesBody :: "'n tool_call \<Rightarrow> bool" where
  "quotesBody (Ingest_from_finnhub tickers) = True"
| "quotesBody (Run_fundamentals ticker) = True"
| "quotesBody c = False"

definition failureText :: "'n tool_call \<Rightarrow> 'n response \<Rightarrow> jsstring" where
  "failureText c res =
     js ''Backend '' @ backendPath c @
       (if quotesBody c
        then js '' '' @ String_nat (status res) @ js '': '' @ take 200 (textOrEmpty res)
        else js '' failed: '' @ String_nat (status res))"

section \<open>Properties\<close>

lemmas handler_defs =
  config_error_def list_universe_def explain_universe_def get_asset_details_def
  search_assets_def ingest_from_finnhub_def run_fundamentals_def

lemma requests_finish: "requests (finish r) = []"
  by (simp add: finish_def)

lemma result_finish: "result (finish r) = r"
  by (simp add: finish_def)

lemma requests_awaitFetch:
  "requests (awaitFetch backend rq rest) =
     rq # (case backend rq of None \<Rightarrow> [] | Some res \<Rightarrow> requests (rest res))"
  by (simp add: awaitFetch_def split: option.splits)

lemma result_awaitFetch:
  "result (awaitFetch backend rq rest) =
     (case backend rq of None \<Rightarrow> Inl NetworkError | Some res \<Rightarrow> result (rest res))"
  by (simp add: awaitFetch_def split: option.splits)

lemmas run_simps = requests_awaitFetch result_awaitFetch requests_finish result_finish

lemma handler_url_path:
  assumes "requests (handler E e backend c) = [rq]"
  shows "\<exists>rest. url rq = normalizeBase e @ backendPath c @ rest"
  using assms
  by (cases c)
     (auto simp: run_simps handler_defs Let_def js_def
           split: sum.splits if_splits)

lemma handler_failure_result:
  assumes "requests (handler E e backend c) = [rq]"
    and "backend rq = Some res"
    and "status res < 200 \<or> 299 < status res"
  shows "result (handler E e backend c) = Inr (textReply (JStr (failureText c res)))"
proof (cases c)
  case (Config_error args)
  with assms show ?thesis
    by (simp add: run_simps config_error_def)
next
  case (List_universe sector limit)
  with assms show ?thesis
    by (auto simp: run_simps list_universe_def Let_def ok_def
          failureText_def js_def)
next
  case (Explain_universe risk universe)
  with assms show ?thesis
    by (auto simp: run_simps explain_universe_def Let_def ok_def
          failureText_def js_def)
next
  case (Get_asset_details ticker)
  with assms show ?thesis
    by (auto simp: run_simps get_asset_details_def
          Let_def ok_def failureText_def js_def split: sum.splits)
next
  case (Search_assets q limit)
  with assms show ?thesis
    by (auto simp: run_simps search_assets_def Let_def ok_def
          failureText_def js_def)
next
  case (Ingest_from_finnhub tickers)
  with assms show ?thesis
    by (auto simp: run_simps ingest_from_finnhub_def
          Let_def ok_def failureText_def js_def slice0_def split: sum.splits if_splits)
next
  case (Run_fundamentals ticker)
  with assms show ?thesis
    by (auto simp: run_simps run_fundamentals_def
          Let_def ok_def failureText_def js_def slice0_def split: sum.splits)
qed

subsection \<open>No valid tickers\<close>

text \<open>
  C4. When the cleaned ticker list is empty, \<^verbatim>\<open>ingest_from_finnhub\<close> issues no request and
  replies with the text \<^verbatim>\<open>No valid tickers provided.\<close>
\<close>

theorem ingest_no_valid_tickers:
  assumes "cleaned E tickers = []"
  shows "ingest_from_finnhub E e backend tickers =
           \<lparr>requests = [], result = Inr (textReply (JStr (js ''No valid tickers provided.'')))\<rparr>"
  using assms by (simp add: ingest_from_finnhub_def finish_def)

theorem ingest_no_valid_tickers_witness:
  "cleaned asciiEngine [js ''   '', js ''''] = [] \<and>
   ingest_from_finnhub asciiEngine exampleEnv (respond emptyObject) [js ''   '', js ''''] =
     \<lparr>requests = [], result = Inr (textReply (JStr (js ''No valid tickers provided.'')))\<rparr>"
proof -
  have h: "cleaned asciiEngine [js ''   '', js ''''] = []"
    by code_simp
  show ?thesis
    using h ingest_no_valid_tickers [OF h, of exampleEnv "respond emptyObject"] by simp
qed

subsection \<open>Backend failures\<close>

text \<open>
  C1. When a handler has issued its request and the backend answers it with a status
  outside 200..299, the handler ends with a reply (no exception) of one text block:
  \<^verbatim>\<open>Backend <path> failed: <status>\<close>, where the path is the one the request's URL starts
  with after the base; for \<^verbatim>\<open>ingest_from_finnhub\<close> and \<^verbatim>\<open>run_fundamentals\<close>, and only for
  them, the text is \<^verbatim>\<open>Backend <path> <status>: \<close> followed by the first 200 code units of the
  body.
\<close>

theorem backend_failure_reply:
  assumes "requests (handler E e backend c) = [rq]"
    and "backend rq = Some res"
    and "status res < 200 \<or> 299 < status res"
  shows "result (handler E e backend c) = Inr (textReply (JStr (failureText c res))) \<and>
         (\<exists>rest. url rq = normalizeBase e @ backendPath c @ rest)"
  using handler_failure_result [OF assms] handler_url_path [OF assms(1)] by simp

theorem backend_failure_reply_witness:
  "result (handler asciiEngine exampleEnv (respond serverError) (Search_assets (js ''ibm'') 10)) =
     Inr (textReply (JStr (js ''Backend /search failed: 500''))) \<and>
   result (handler asciiEngine exampleEnv (respond notFoundLong) (Run_fundamentals (js ''IBM''))) =
     Inr (textReply (JStr (js ''Backend /analyze/fundamentals 404: '' @ replicate 200 0x78))) \<and>
   length (textOrEmpty notFoundLong) = 250"
proof -
  let ?rq1 = "\<lparr>method = GET, url = js ''https://api.example.com/search?q=ibm&limit=10'',
                headers = [(js ''cache-control'', js ''no-store'')],
                cf = Some \<lparr>cacheTtl = 0, cacheEverything = False\<rparr>, body = None\<rparr>"
  let ?rq2 = "\<lparr>method = GET,
                url = js ''https://api.example.com/analyze/fundamentals?ticker=IBM'',
                headers = [(js ''cache-control'', js ''no-store'')],
                cf = Some \<lparr>cacheTtl = 0, cacheEverything = False\<rparr>, body = None\<rparr>"
  have r1: "requests (handler asciiEngine exampleEnv (respond serverError)
              (Search_assets (js ''ibm'') 10)) = [?rq1]"
    by code_simp
  have r2: "requests (handler asciiEngine exampleEnv (respond notFoundLong)
              (Run_fundamentals (js ''IBM''))) = [?rq2]"
    by code_simp
  have b1: "respond serverError ?rq1 = Some serverError"
    and b2: "respond notFoundLong ?rq2 = Some notFoundLong"
    by (simp_all add: respond_def)
  have s1: "status serverError < 200 \<or> 299 < status serverError"
    and s2: "status notFoundLong < 200 \<or> 299 < status notFoundLong"
    by (simp_all add: serverError_def notFoundLong_def)
  have t1: "failureText (Search_assets (js ''ibm'') 10) serverError =
              js ''Backend /search failed: 500''"
    by code_simp
  have t2: "failureText (Run_fundamentals (js ''IBM'')) notFoundLong =
              js ''Backend /analyze/fundamentals 404: '' @ replicate 200 0x78"
    by code_simp
  have l: "length (textOrEmpty notFoundLong) = 250"
    by (simp add: textOrEmpty_def notFoundLong_def)
  show ?thesis
    using backend_failure_reply [OF r1 b1 s1] backend_failure_reply [OF r2 b2 s2] t1 t2 l
    by simp
qed

subsection \<open>Degraded mode\<close>

lemma normalizeBase_empty_iff:
  "normalizeBase e = [] \<longleftrightarrow>
     set (case API_BASE e of None \<Rightarrow> [] | Some s \<Rightarrow> s) \<subseteq> {0x2F}"
  by (auto simp: normalizeBase_def)

lemma toolName_config_error:
  "toolName c = js ''config_error'' \<longleftrightarrow> (\<exists>args. c = Config_error args)"
  by (cases c) (simp_all add: js_def)

text \<open>
  C2, as the code has it. A session whose base address is not set, is empty or consists
  of slashes only (so that the normalized base is empty) registers the tool
  \<^verbatim>\<open>config_error\<close> and no other; \<^verbatim>\<open>config_error\<close> returns the fixed text whatever its
  arguments are, and no call of the session issues a request. Whitespace is not removed
  from the base address.
\<close>

theorem degraded_mode:
  assumes "set (case API_BASE e of None \<Rightarrow> [] | Some s \<Rightarrow> s) \<subseteq> {0x2F}"
  shows "init e = [js ''config_error''] \<and>
         callTool E e backend (Config_error args) =
           Some \<lparr>requests = [],
                 result = Inr (textReply (JStr
                   (js ''Missing API_BASE env var. Set it in wrangler.jsonc under 'vars'.'')))\<rparr> \<and>
         (\<forall>c r. callTool E e backend c = Some r \<longrightarrow> requests r = [])"
proof -
  from assms have n: "normalizeBase e = []"
    by (simp add: normalizeBase_empty_iff)
  then have i: "init e = [js ''config_error'']"
    by (simp add: init_def)
  have "callTool E e backend (Config_error args) =
           Some \<lparr>requests = [],
                 result = Inr (textReply (JStr
                   (js ''Missing API_BASE env var. Set it in wrangler.jsonc under 'vars'.'')))\<rparr>"
    by (simp add: callTool_def i config_error_def finish_def)
  moreover have "requests r = []" if "callTool E e backend c = Some r" for c r
  proof -
    from that have "toolName c = js ''config_error''" and r: "r = handler E e backend c"
      by (auto simp: callTool_def i split: if_splits)
    then obtain a where "c = Config_error a"
      by (auto simp: toolName_config_error)
    with r show ?thesis
      by (simp add: run_simps config_error_def)
  qed
  ultimately show ?thesis
    using i by blast
qed

theorem degraded_mode_witness:
  "init \<lparr>API_BASE = None\<rparr> = [js ''config_error''] \<and>
   init \<lparr>API_BASE = Some (js ''///'')\<rparr> = [js ''config_error''] \<and>
   callTool asciiEngine \<lparr>API_BASE = Some []\<rparr> (respond emptyObject)
       (Config_error (JStr (js ''x''))) =
     Some \<lparr>requests = [],
           result = Inr (textReply (JStr
             (js ''Missing API_BASE env var. Set it in wrangler.jsonc under 'vars'.'')))\<rparr>"
proof -
  have a: "set (case API_BASE \<lparr>API_BASE = None\<rparr> of None \<Rightarrow> [] | Some s \<Rightarrow> s) \<subseteq> {0x2F}"
    by simp
  have b: "set (case API_BASE \<lparr>API_BASE = Some (js ''///'')\<rparr> of None \<Rightarrow> [] | Some s \<Rightarrow> s)
             \<subseteq> {0x2F}"
    by (simp add: js_def)
  have c: "set (case API_BASE \<lparr>API_BASE = Some []\<rparr> of None \<Rightarrow> [] | Some s \<Rightarrow> s) \<subseteq> {0x2F}"
    by simp
  have 1: "init \<lparr>API_BASE = None\<rparr> = [js ''config_error'']"
    using degraded_mode [OF a, of asciiEngine "respond emptyObject" JNull] by (rule conjunct1)
  have 2: "init \<lparr>API_BASE = Some (js ''///'')\<rparr> = [js ''config_error'']"
    using degraded_mode [OF b, of asciiEngine "respond emptyObject" JNull] by (rule conjunct1)
  have 3: "callTool asciiEngine \<lparr>API_BASE = Some []\<rparr> (respond emptyObject)
             (Config_error (JStr (js ''x''))) =
           Some \<lparr>requests = [],
                 result = Inr (textReply (JStr
                   (js ''Missing API_BASE env var. Set it in wrangler.jsonc under 'vars'.'')))\<rparr>"
    using degraded_mode [OF c, of asciiEngine "respond emptyObject" "JStr (js ''x'')"] by blast
  from 1 2 3 show ?thesis
    by (intro conjI)
qed

text \<open>
  With a base address of three spaces the normalized base is not empty: the session
  registers the six backend tools, and \<^verbatim>\<open>config_error\<close> is not among them.
\<close>

theorem whitespace_base_counterexample:
  "init \<lparr>API_BASE = Some (js ''   '')\<rparr> =
     [js ''list_universe'', js ''explain_universe'', js ''get_asset_details'',
      js ''search_assets'', js ''ingest_from_finnhub'', js ''run_fundamentals''] \<and>
   callTool asciiEngine \<lparr>API_BASE = Some (js ''   '')\<rparr> (respond emptyObject)
     (Config_error JNull) = None"
  by code_simp

subsection \<open>The query of list_universe\<close>

lemma trim_Nil: "trim [] = []"
  by (simp add: trim_def)

text \<open>
  C5. A validated \<^verbatim>\<open>list_universe\<close> call issues one GET to \<^verbatim>\<open>/universe\<close> whose query is the
  serialization of the parameter \<^verbatim>\<open>limit\<close>, followed by the parameter \<^verbatim>\<open>sector\<close> with the
  trimmed value exactly when a sector was given and its trimmed value is not empty.
\<close>

theorem list_universe_query:
  assumes "validArgs (List_universe sector limit :: 'n tool_call)"
  shows "requests (list_universe (E :: 'n engine) e backend sector limit) =
           [\<lparr>method = GET,
             url = normalizeBase e @ js ''/universe?'' @
                   URLSearchParams_toString
                     ((js ''limit'', String_nat limit) #
                      (case sector of
                         None \<Rightarrow> []
                       | Some s \<Rightarrow> if trim s = [] then [] else [(js ''sector'', trim s)])),
             headers = [(js ''cache-control'', js ''no-store'')],
             cf = Some \<lparr>cacheTtl = 0, cacheEverything = False\<rparr>,
             body = None\<rparr>]"
  by (auto simp: run_simps list_universe_def Let_def js_def trim_Nil
        split: option.splits)

theorem list_universe_query_witness:
  "requests (list_universe asciiEngine exampleEnv (respond emptyObject) None 100) =
     [\<lparr>method = GET, url = js ''https://api.example.com/universe?limit=100'',
       headers = [(js ''cache-control'', js ''no-store'')],
       cf = Some \<lparr>cacheTtl = 0, cacheEverything = False\<rparr>, body = None\<rparr>] \<and>
   requests (list_universe asciiEngine exampleEnv (respond emptyObject) (Some (js '' Tech '')) 100) =
     [\<lparr>method = GET, url = js ''https://api.example.com/universe?limit=100&sector=Tech'',
       headers = [(js ''cache-control'', js ''no-store'')],
       cf = Some \<lparr>cacheTtl = 0, cacheEverything = False\<rparr>, body = None\<rparr>] \<and>
   requests (list_universe asciiEngine exampleEnv (respond emptyObject) (Some (js ''  '')) 100) =
     [\<lparr>method = GET, url = js ''https://api.example.com/universe?limit=100'',
       headers = [(js ''cache-control'', js ''no-store'')],
       cf = Some \<lparr>cacheTtl = 0, cacheEverything = False\<rparr>, body = None\<rparr>]"
proof -
  have v: "validArgs (List_universe s 100 :: int tool_call)" for s
    by simp
  have u1: "normalizeBase exampleEnv @ js ''/universe?'' @
              URLSearchParams_toString ((js ''limit'', String_nat 100) #
                (case None of
                   None \<Rightarrow> []
                 | Some s \<Rightarrow> if trim s = [] then [] else [(js ''sector'', trim s)])) =
            js ''https://api.example.com/universe?limit=100''"
    by code_simp
  have u2: "normalizeBase exampleEnv @ js ''/universe?'' @
              URLSearchParams_toString ((js ''limit'', String_nat 100) #
                (case Some (js '' Tech '') of
                   None \<Rightarrow> []
                 | Some s \<Rightarrow> if trim s = [] then [] else [(js ''sector'', trim s)])) =
            js ''https://api.example.com/universe?limit=100&sector=Tech''"
    by code_simp
  have u3: "normalizeBase exampleEnv @ js ''/universe?'' @
              URLSearchParams_toString ((js ''limit'', String_nat 100) #
                (case Some (js ''  '') of
                   None \<Rightarrow> []
                 | Some s \<Rightarrow> if trim s = [] then [] else [(js ''sector'', trim s)])) =
            js ''https://api.example.com/universe?limit=100''"
    by code_simp
  show ?thesis
    using list_universe_query [OF v, of asciiEngine exampleEnv "respond emptyObject" None]
      list_universe_query [OF v, of asciiEngine exampleEnv "respond emptyObject"
        "Some (js '' Tech '')"]
      list_universe_query [OF v, of asciiEngine exampleEnv "respond emptyObject"
        "Some (js ''  '')"]
    unfolding u1 u2 u3 by simp
qed

subsection \<open>Cache bypass\<close>

text \<open>
  C9. Every GET request a handler issues carries the cache directive
  \<^verbatim>\<open>cf: { cacheTtl: 0, cacheEverything: false }\<close> and the header \<^verbatim>\<open>cache-control: no-store\<close>.
\<close>

theorem get_requests_bypass_cache:
  assumes "rq \<in> set (requests (handler E e backend c))" and "method rq = GET"
  shows "cf rq = Some \<lparr>cacheTtl = 0, cacheEverything = False\<rparr> \<and>
         (js ''cache-control'', js ''no-store'') \<in> set (headers rq)"
  using assms
  by (cases c)
     (auto simp: run_simps handler_defs Let_def
           split: sum.splits if_splits option.splits)

theorem get_requests_bypass_cache_witness:
  "requests (handler asciiEngine exampleEnv (respond emptyObject) (Run_fundamentals (js ''IBM''))) =
     [\<lparr>method = GET, url = js ''https://api.example.com/analyze/fundamentals?ticker=IBM'',
       headers = [(js ''cache-control'', js ''no-store'')],
       cf = Some \<lparr>cacheTtl = 0, cacheEverything = False\<rparr>, body = None\<rparr>] \<and>
   cf (hd (requests (handler asciiEngine exampleEnv (respond emptyObject)
         (Run_fundamentals (js ''IBM''))))) = Some \<lparr>cacheTtl = 0, cacheEverything = False\<rparr> \<and>
   (js ''cache-control'', js ''no-store'') \<in>
     set (headers (hd (requests (handler asciiEngine exampleEnv (respond emptyObject)
       (Run_fundamentals (js ''IBM''))))))"
proof -
  let ?rq = "\<lparr>method = GET, url = js ''https://api.example.com/analyze/fundamentals?ticker=IBM'',
               headers = [(js ''cache-control'', js ''no-store'')],
               cf = Some \<lparr>cacheTtl = 0, cacheEverything = False\<rparr>, body = None\<rparr>"
  have r: "requests (handler asciiEngine exampleEnv (respond emptyObject)
             (Run_fundamentals (js ''IBM''))) = [?rq]"
    by code_simp
  have m: "?rq \<in> set (requests (handler asciiEngine exampleEnv (respond emptyObject)
             (Run_fundamentals (js ''IBM''))))"
    unfolding r by simp
  have g: "method ?rq = GET"
    by simp
  show ?thesis
    using get_requests_bypass_cache [OF m g] r by simp
qed

subsection \<open>The rationale of explain_universe\<close>

lemma optGet_field:
  "optGet data name = (case field data name of None \<Rightarrow> JUndefined | Some v \<Rightarrow> v)"
  by (cases data) (simp_all add: optGet_def)

lemma nullish_eq:
  "nullish v b = (if v = JNull \<or> v = JUndefined then b else v)"
  by (cases v) simp_all

text \<open>
  C6, as the code has it. \<^verbatim>\<open>explain_universe\<close> issues one POST to \<^verbatim>\<open>/explain\<close> with the JSON
  text of \<^verbatim>\<open>{risk, universe}\<close> as body. When the response has a status in 200..299 and a
  JSON body, the reply's text is the \<^verbatim>\<open>rationale\<close> field of the response, or
  \<^verbatim>\<open>No rationale.\<close> when the field is absent or \<^verbatim>\<open>null\<close>.
\<close>

theorem explain_universe_rationale:
  "requests (explain_universe E base backend risk universe) =
     [explainRequest E base risk universe] \<and>
   (backend (explainRequest E base risk universe) = Some res \<and>
    200 \<le> status res \<and> status res \<le> 299 \<and> bodyJson res = Some data \<longrightarrow>
    result (explain_universe E base backend risk universe) =
      Inr (textReply
        (case field data (js ''rationale'') of
           None \<Rightarrow> JStr (js ''No rationale.'')
         | Some v \<Rightarrow> if v = JNull \<or> v = JUndefined then JStr (js ''No rationale.'') else v)))"
  by (auto simp: run_simps explain_universe_def explainRequest_def
        ok_def optGet_field nullish_eq split: option.splits)

theorem explain_universe_rationale_witness:
  \<open>requests (explain_universe asciiEngine (js ''https://api.example.com'')
      (respond emptyObject) 3 [js ''AAPL'']) =
     [\<lparr>method = POST, url = js ''https://api.example.com/explain'',
       headers = [(js ''content-type'', js ''application/json'')],
       cf = None,
       body = Some (js ''{"risk":3,"universe":["AAPL"]}'')\<rparr>] \<and>
   result (explain_universe asciiEngine (js ''https://api.example.com'')
      (respond emptyObject) 3 [js ''AAPL'']) =
     Inr (textReply (JStr (js ''No rationale.''))) \<and>
   result (explain_universe asciiEngine (js ''https://api.example.com'')
      (respond (jsonResponse (JObj [(js ''rationale'', JStr (js ''Diversified.''))])))
      3 [js ''AAPL'']) =
     Inr (textReply (JStr (js ''Diversified.'')))\<close>
proof -
  let ?b = "js ''https://api.example.com''"
  let ?d = "JObj [(js ''rationale'', JStr (js ''Diversified.''))] :: int jsvalue"
  let ?r = "jsonResponse ?d"
  have q: \<open>explainRequest asciiEngine ?b 3 [js ''AAPL''] =
     \<lparr>method = POST, url = js ''https://api.example.com/explain'',
       headers = [(js ''content-type'', js ''application/json'')],
       cf = None,
       body = Some (js ''{"risk":3,"universe":["AAPL"]}'')\<rparr>\<close>
    by code_simp
  have h1: "respond emptyObject (explainRequest asciiEngine ?b 3 [js ''AAPL'']) =
              Some emptyObject \<and>
            200 \<le> status emptyObject \<and> status emptyObject \<le> 299 \<and>
            bodyJson emptyObject = Some (JObj [])"
    by (simp add: respond_def emptyObject_def)
  have h2: "respond ?r (explainRequest asciiEngine ?b 3 [js ''AAPL'']) = Some ?r \<and>
            200 \<le> status ?r \<and> status ?r \<le> 299 \<and> bodyJson ?r = Some ?d"
    by (simp add: respond_def jsonResponse_def)
  have f2: "field ?d (js ''rationale'') = Some (JStr (js ''Diversified.''))"
    by simp
  show ?thesis
    using explain_universe_rationale [of asciiEngine ?b "respond emptyObject" 3
        "[js ''AAPL'']" emptyObject "JObj []"]
      explain_universe_rationale [of asciiEngine ?b "respond ?r" 3 "[js ''AAPL'']" ?r ?d]
      h1 h2 f2
    unfolding q by simp
qed

text \<open>
  A response \<^verbatim>\<open>{"rationale": null}\<close> has the field, and the reply's text is not the field
  but \<^verbatim>\<open>No rationale.\<close>
\<close>

theorem null_rationale_counterexample:
  "field (JObj [(js ''rationale'', JNull)] :: int jsvalue) (js ''rationale'') = Some JNull \<and>
   result (explain_universe asciiEngine (js ''https://api.example.com'')
      (respond (jsonResponse (JObj [(js ''rationale'', JNull)]))) 3 []) =
     Inr (textReply (JStr (js ''No rationale.'')))"
  by code_simp

subsection \<open>The payload of a reply\<close>

text \<open>
  C7 fails on the code. For a response \<^verbatim>\<open>{}\<close> with status 200, \<^verbatim>\<open>get_asset_details\<close>
  replies with a block whose text is \<^verbatim>\<open>undefined\<close>, the value of
  \<^verbatim>\<open>JSON.stringify(undefined, null, 2)\<close>; for a response \<^verbatim>\<open>{"rationale": 42}\<close>,
  \<^verbatim>\<open>explain_universe\<close> replies with a block whose text is the number 42. Neither is a
  string.
\<close>

theorem text_payload_not_a_string:
  "result (get_asset_details asciiEngine exampleEnv (respond emptyObject) (js ''AAPL'')) =
     Inr (textReply JUndefined) \<and>
   result (explain_universe asciiEngine (js ''https://api.example.com'')
      (respond (jsonResponse (JObj [(js ''rationale'', JNum 42)]))) 3 []) =
     Inr (textReply (JNum 42)) \<and>
   isString (JUndefined :: int jsvalue) = False \<and> isString (JNum 42 :: int jsvalue) = False"
  by code_simp

subsection \<open>The cleaned ticker list\<close>

lemma set_setInsertAll: "set (setInsertAll acc xs) = set acc \<union> set xs"
  by (induction xs arbitrary: acc) auto

lemma distinct_setInsertAll: "distinct acc \<Longrightarrow> distinct (setInsertAll acc xs)"
  by (induction xs arbitrary: acc) auto

lemma length_setInsertAll: "length (setInsertAll acc xs) \<le> length acc + length xs"
proof (induction xs arbitrary: acc)
  case Nil
  show ?case by simp
next
  case (Cons x xs)
  show ?case
    using Cons.IH [of "if x \<in> set acc then acc else acc @ [x]"] by (simp split: if_splits)
qed

lemma setInsertAll_firstOccurrences:
  "setInsertAll acc xs = acc @ firstOccurrences (filter (\<lambda>x. x \<notin> set acc) xs)"
proof (induction xs arbitrary: acc)
  case Nil
  show ?case by simp
next
  case (Cons x xs)
  have "filter (\<lambda>y. y \<notin> set (acc @ [x])) xs =
          filter (\<lambda>y. y \<noteq> x) (filter (\<lambda>y. y \<notin> set acc) xs)"
    by (induction xs) auto
  with Cons.IH [of acc] Cons.IH [of "acc @ [x]"] show ?case
    by simp
qed

lemma set_firstOccurrences: "set (firstOccurrences xs) = set xs"
  by (induction xs rule: firstOccurrences.induct) auto

lemma distinct_firstOccurrences: "distinct (firstOccurrences xs)"
  by (induction xs rule: firstOccurrences.induct) (auto simp: set_firstOccurrences)

lemma arrayFromSet_firstOccurrences: "arrayFromSet xs = firstOccurrences xs"
  by (simp add: arrayFromSet_def setInsertAll_firstOccurrences)

lemma cleaned_no_truncation:
  assumes "length tickers \<le> 50"
  shows "cleaned E tickers =
           arrayFromSet (filter (\<lambda>t. t \<noteq> []) (map (\<lambda>t. toUpperCase E (trim t)) tickers))"
proof -
  let ?xs = "filter (\<lambda>t. t \<noteq> []) (map (\<lambda>t. toUpperCase E (trim t)) tickers)"
  have "length (arrayFromSet ?xs) \<le> length ?xs"
    using length_setInsertAll [of "[]" ?xs] by (simp add: arrayFromSet_def)
  also have "\<dots> \<le> length tickers"
    using length_filter_le [of "\<lambda>t. t \<noteq> []" "map (\<lambda>t. toUpperCase E (trim t)) tickers"]
    by simp
  finally show ?thesis
    using assms by (simp add: cleaned_def)
qed

subsection \<open>encodeURIComponent is injective\<close>

lemma unat_of_nat16: "n < 65536 \<Longrightarrow> unat (of_nat n :: unit16) = n"
  by (simp add: unat_of_nat)

lemma unat_hexDigit: "d < 16 \<Longrightarrow> unat (hexDigit d) = (if d < 10 then 48 + d else 55 + d)"
  unfolding hexDigit_def by (simp add: unat_of_nat16 del: of_nat_add)

lemma hexDigit_inj:
  assumes "x < 16" and "y < 16" and "hexDigit x = hexDigit y"
  shows "x = y"
proof -
  from assms(3) have "unat (hexDigit x) = unat (hexDigit y)"
    by simp
  with assms(1,2) show ?thesis
    by (simp add: unat_hexDigit split: if_splits)
qed

lemma pct_inj:
  assumes "b < 256" and "b' < 256" and "pct b = pct b'"
  shows "b = b'"
proof -
  have "b div 16 < 16" and "b' div 16 < 16" and "b mod 16 < 16" and "b' mod 16 < 16"
    using assms(1,2) by simp_all
  moreover from assms(3) have "hexDigit (b div 16) = hexDigit (b' div 16)"
    and "hexDigit (b mod 16) = hexDigit (b' mod 16)"
    by (simp_all add: pct_def)
  ultimately have "b div 16 = b' div 16" and "b mod 16 = b' mod 16"
    by (auto intro: hexDigit_inj)
  then show ?thesis
    by (metis div_mult_mod_eq)
qed

lemma pct_append_eq:
  "pct b @ r = pct b' @ r' \<longleftrightarrow> pct b = pct b' \<and> r = r'"
  by (simp add: pct_def)

lemma escaped_bytes_inj:
  assumes "length xs = length ys"
    and "\<forall>b \<in> set xs. b < 256" and "\<forall>b \<in> set ys. b < 256"
    and "concat (map pct xs) @ r = concat (map pct ys) @ r'"
  shows "xs = ys \<and> r = r'"
  using assms
proof (induction xs ys rule: list_induct2)
  case Nil
  then show ?case by simp
next
  case (Cons x xs y ys)
  from Cons.prems(3) have "pct x = pct y"
    and rest: "concat (map pct xs) @ r = concat (map pct ys) @ r'"
    by (simp_all add: pct_append_eq)
  with Cons.prems(1,2) have "x = y"
    by (auto intro: pct_inj)
  with Cons.IH rest Cons.prems(1,2) show ?case
    by simp
qed

lemma utf8_bytes: "cp < 0x110000 \<Longrightarrow> b \<in> set (utf8 cp) \<Longrightarrow> b < 256"
  unfolding utf8_def by (simp split: if_splits; linarith)

lemma utf8_Cons: "\<exists>b bs. utf8 cp = b # bs"
  by (simp add: utf8_def)

lemma utf8_length:
  assumes "cp < 0x110000"
  shows "length (utf8 cp) =
           (if hd (utf8 cp) < 0x80 then 1 else if hd (utf8 cp) < 0xE0 then 2
            else if hd (utf8 cp) < 0xF0 then 3 else 4)"
proof -
  consider "cp < 0x80" | "0x80 \<le> cp" "cp < 0x800" | "0x800 \<le> cp" "cp < 0x10000"
    | "0x10000 \<le> cp"
    by linarith
  then show ?thesis
  proof cases
    case 1
    then show ?thesis by (simp add: utf8_def)
  next
    case 2
    then have "2 \<le> cp div 0x40" and "cp div 0x40 < 0x20"
      by simp_all
    with 2 show ?thesis by (simp add: utf8_def)
  next
    case 3
    then have "cp div 0x1000 < 0x10"
      by simp
    with 3 show ?thesis by (simp add: utf8_def)
  next
    case 4
    with assms have "cp div 0x40000 < 5"
      by simp
    with 4 show ?thesis by (simp add: utf8_def)
  qed
qed

lemma utf8_length_lead:
  assumes "a < 0x110000" and "b < 0x110000" and "hd (utf8 a) = hd (utf8 b)"
  shows "length (utf8 a) = length (utf8 b)"
  using assms by (simp add: utf8_length)

lemma nat_split3: "(a::nat) = 0x1000 * (a div 0x1000) + 0x40 * (a div 0x40 mod 0x40) + a mod 0x40"
proof -
  have "a div 0x40 div 0x40 = a div 0x1000"
    by (simp add: div_mult2_eq [symmetric])
  then have "a div 0x40 = 0x40 * (a div 0x1000) + a div 0x40 mod 0x40"
    by (metis mult_div_mod_eq)
  moreover have "a = 0x40 * (a div 0x40) + a mod 0x40"
    by simp
  ultimately show ?thesis
    by linarith
qed

lemma nat_split4:
  "(a::nat) = 0x40000 * (a div 0x40000) + 0x1000 * (a div 0x1000 mod 0x40)
     + 0x40 * (a div 0x40 mod 0x40) + a mod 0x40"
proof -
  have "a div 0x1000 div 0x40 = a div 0x40000"
    by (simp add: div_mult2_eq [symmetric])
  then have "a div 0x1000 = 0x40 * (a div 0x40000) + a div 0x1000 mod 0x40"
    by (metis mult_div_mod_eq)
  with nat_split3 [of a] show ?thesis
    by linarith
qed

lemma utf8_inj:
  assumes "utf8 a = utf8 b"
  shows "a = b"
proof -
  from assms have "length (utf8 a) = length (utf8 b)"
    by simp
  then consider "a < 0x80" "b < 0x80"
    | "\<not> a < 0x80" "a < 0x800" "\<not> b < 0x80" "b < 0x800"
    | "\<not> a < 0x800" "a < 0x10000" "\<not> b < 0x800" "b < 0x10000"
    | "\<not> a < 0x10000" "\<not> b < 0x10000"
    by (simp add: utf8_def split: if_splits)
  then show ?thesis
  proof cases
    case 1
    with assms show ?thesis by (simp add: utf8_def)
  next
    case 2
    with assms have "a div 0x40 = b div 0x40" and "a mod 0x40 = b mod 0x40"
      by (simp_all add: utf8_def)
    then show ?thesis
      by (metis div_mult_mod_eq)
  next
    case 3
    with assms have "a div 0x1000 = b div 0x1000" and "a div 0x40 mod 0x40 = b div 0x40 mod 0x40"
      and "a mod 0x40 = b mod 0x40"
      by (simp_all add: utf8_def)
    with nat_split3 [of a] nat_split3 [of b] show ?thesis
      by simp
  next
    case 4
    with assms have "a div 0x40000 = b div 0x40000"
      and "a div 0x1000 mod 0x40 = b div 0x1000 mod 0x40"
      and "a div 0x40 mod 0x40 = b div 0x40 mod 0x40"
      and "a mod 0x40 = b mod 0x40"
      by (simp_all add: utf8_def)
    with nat_split4 [of a] nat_split4 [of b] show ?thesis
      by simp
  qed
qed

lemma uriUnreserved_bound: "uriUnreserved cp \<Longrightarrow> cp < 0x80 \<and> cp \<noteq> 0x25"
  by (auto simp: uriUnreserved_def isAlnum_def)

lemma escaped_head:
  "\<exists>b bs. utf8 cp = b # bs \<and> concat (map pct (utf8 cp)) = pct b @ concat (map pct bs)"
  using utf8_Cons [of cp] by auto

lemma uriPiece_Cons: "\<exists>c cs. uriPiece cp = c # cs"
  using escaped_head [of cp] by (auto simp: uriPiece_def pct_def)

lemma escaped_inj:
  assumes "a < 0x110000" and "b < 0x110000"
    and "concat (map pct (utf8 a)) @ r = concat (map pct (utf8 b)) @ r'"
  shows "a = b \<and> r = r'"
proof -
  obtain x xs where a: "utf8 a = x # xs"
    using utf8_Cons by blast
  obtain y ys where b: "utf8 b = y # ys"
    using utf8_Cons by blast
  have bytes: "\<forall>v \<in> set (utf8 a). v < 256" "\<forall>v \<in> set (utf8 b). v < 256"
    using assms(1,2) utf8_bytes by blast+
  from assms(3) have "pct x = pct y"
    by (simp add: a b pct_def)
  with bytes have "x = y"
    by (auto simp: a b intro: pct_inj)
  then have "hd (utf8 a) = hd (utf8 b)"
    by (simp add: a b)
  then have "length (utf8 a) = length (utf8 b)"
    using assms(1,2) by (rule utf8_length_lead [rotated 2])
  from escaped_bytes_inj [OF this bytes assms(3)] show ?thesis
    by (auto dest: utf8_inj)
qed

lemma of_nat16_inj:
  assumes "a < 65536" and "b < 65536" and "(of_nat a :: unit16) = of_nat b"
  shows "a = b"
  using assms by (metis unat_of_nat16)

lemma unreserved_not_percent:
  assumes "uriUnreserved a"
  shows "(of_nat a :: unit16) \<noteq> 0x25"
proof
  assume "(of_nat a :: unit16) = 0x25"
  then have "(of_nat a :: unit16) = of_nat 37"
    by simp
  moreover have "a < 65536"
    using uriUnreserved_bound [OF assms] by simp
  ultimately have "a = 37"
    by (intro of_nat16_inj) simp_all
  with uriUnreserved_bound [OF assms] show False
    by simp
qed

lemma escaped_starts_percent: "\<exists>cs. concat (map pct (utf8 cp)) = 0x25 # cs"
  using utf8_Cons [of cp] by (auto simp: pct_def)

lemma uriPiece_inj:
  assumes "a < 0x110000" and "b < 0x110000" and "uriPiece a @ r = uriPiece b @ r'"
  shows "a = b \<and> r = r'"
proof (cases "uriUnreserved a")
  case ua: True
  show ?thesis
  proof (cases "uriUnreserved b")
    case True
    with ua assms(3) have "(of_nat a :: unit16) = of_nat b" and r: "r = r'"
      by (simp_all add: uriPiece_def)
    moreover have "a < 65536" and "b < 65536"
      using uriUnreserved_bound [OF ua] uriUnreserved_bound [OF True] by simp_all
    ultimately show ?thesis
      by (auto intro: of_nat16_inj)
  next
    case False
    obtain cs where "concat (map pct (utf8 b)) = 0x25 # cs"
      using escaped_starts_percent by blast
    with ua False assms(3) have "(of_nat a :: unit16) = 0x25"
      by (simp add: uriPiece_def)
    with unreserved_not_percent [OF ua] show ?thesis
      by simp
  qed
next
  case na: False
  show ?thesis
  proof (cases "uriUnreserved b")
    case True
    obtain cs where "concat (map pct (utf8 a)) = 0x25 # cs"
      using escaped_starts_percent by blast
    with na True assms(3) have "(of_nat b :: unit16) = 0x25"
      by (simp add: uriPiece_def)
    with unreserved_not_percent [OF True] show ?thesis
      by simp
  next
    case False
    with na assms(3) have "concat (map pct (utf8 a)) @ r = concat (map pct (utf8 b)) @ r'"
      by (simp add: uriPiece_def)
    then show ?thesis
      by (rule escaped_inj [OF assms(1,2)])
  qed
qed

lemma encodePoints_inj:
  assumes "encodePoints xs = Inr s" and "encodePoints ys = Inr s"
    and "\<forall>cp. Some cp \<in> set xs \<longrightarrow> cp < 0x110000"
    and "\<forall>cp. Some cp \<in> set ys \<longrightarrow> cp < 0x110000"
  shows "xs = ys"
  using assms
proof (induction xs arbitrary: ys s rule: encodePoints.induct)
  case 1
  show ?case
  proof (cases ys)
    case Nil
    then show ?thesis by simp
  next
    case (Cons y ys')
    show ?thesis
    proof (cases y)
      case None
      with Cons "1.prems"(2) show ?thesis by simp
    next
      case (Some cq)
      with Cons "1.prems"(1,2) show ?thesis
        using uriPiece_Cons [of cq] by (auto split: sum.splits)
    qed
  qed
next
  case (2 cps)
  then show ?case by simp
next
  case (3 cp cps)
  from "3.prems"(1) obtain s1 where s1: "encodePoints cps = Inr s1" and s: "s = uriPiece cp @ s1"
    by (auto split: sum.splits)
  show ?case
  proof (cases ys)
    case Nil
    with "3.prems"(2) s show ?thesis
      using uriPiece_Cons [of cp] by auto
  next
    case (Cons y ys')
    with "3.prems"(2) obtain cq s2 where y: "y = Some cq"
      and s2: "encodePoints ys' = Inr s2" and s': "s = uriPiece cq @ s2"
      by (cases y) (auto split: sum.splits)
    from "3.prems"(3,4) Cons y have "cp < 0x110000" and "cq < 0x110000"
      by auto
    with s s' have "cp = cq" and "s1 = s2"
      using uriPiece_inj [of cp cq s1 s2] by auto
    moreover from "3.IH" [OF s1 s2 [folded \<open>s1 = s2\<close>]] "3.prems"(3,4) Cons
    have "cps = ys'"
      by auto
    ultimately show ?thesis
      using Cons y by simp
  qed
qed

lemma isHigh_unat: "isHigh c \<longleftrightarrow> 0xD800 \<le> unat c \<and> unat c \<le> 0xDBFF"
  by (simp add: isHigh_def word_le_nat_alt)

lemma isLow_unat: "isLow c \<longleftrightarrow> 0xDC00 \<le> unat c \<and> unat c \<le> 0xDFFF"
  by (simp add: isLow_def word_le_nat_alt)

lemma unat_unit16: "unat (c :: unit16) < 65536"
  using unsigned_less [of c, where 'a = nat] by simp

lemma fromCodePoint_unit: "fromCodePoint (unat (c :: unit16)) = [c]"
  using unat_unit16 [of c] by (simp add: fromCodePoint_def)

lemma fromCodePoint_pair:
  assumes "isHigh c" and "isLow d"
  shows "fromCodePoint (0x10000 + (unat c - 0xD800) * 0x400 + (unat d - 0xDC00)) = [c, d]"
proof -
  define x where "x = unat c - 0xD800"
  define y where "y = unat d - 0xDC00"
  from assms have "0xD800 \<le> unat c" and "0xDC00 \<le> unat d" and "unat d \<le> 0xDFFF"
    by (simp_all add: isHigh_unat isLow_unat)
  then have c: "unat c = 0xD800 + x" and d: "unat d = 0xDC00 + y" and y: "y < 0x400"
    unfolding x_def y_def by linarith+
  have "(x * 0x400 + y) div 0x400 = x" and "(x * 0x400 + y) mod 0x400 = y"
    using y by simp_all
  then have "fromCodePoint (0x10000 + x * 0x400 + y) = [of_nat (unat c), of_nat (unat d)]"
    unfolding c d by (simp add: fromCodePoint_def del: of_nat_add)
  then show ?thesis
    by (simp add: x_def y_def)
qed

lemma codePoints_bound: "Some cp \<in> set (codePoints s) \<Longrightarrow> cp < 0x110000"
proof (induction s rule: codePoints.induct)
  case 1
  then show ?case by simp
next
  case (2 c)
  then show ?case
    using unat_unit16 [of c] by (simp split: if_splits)
next
  case (3 c d cs)
  show ?case
  proof (cases "isHigh c \<and> isLow d")
    case True
    then have "unat c \<le> 0xDBFF" and "unat d \<le> 0xDFFF"
      by (simp_all add: isHigh_unat isLow_unat)
    then have "0x10000 + (unat c - 0xD800) * 0x400 + (unat d - 0xDC00) < 0x110000"
      by linarith
    with True "3.prems" "3.IH"(1) show ?thesis
      by auto
  next
    case False
    with "3.prems" "3.IH"(2) show ?thesis
      using unat_unit16 [of c] by (auto split: if_splits)
  qed
qed

lemma codePoints_inverse:
  assumes "wellFormed s"
  shows "concat (map (\<lambda>p. case p of None \<Rightarrow> [] | Some cp \<Rightarrow> fromCodePoint cp) (codePoints s)) = s"
  using assms unfolding wellFormed_def
proof (induction s rule: codePoints.induct)
  case 1
  show ?case by simp
next
  case (2 c)
  then show ?case
    by (simp add: fromCodePoint_unit split: if_splits)
next
  case (3 c d cs)
  show ?case
  proof (cases "isHigh c \<and> isLow d")
    case True
    with "3.prems" "3.IH"(1) show ?thesis
      by (simp add: fromCodePoint_pair)
  next
    case False
    with "3.prems" have "\<not> (isHigh c \<or> isLow c)" and "None \<notin> set (codePoints (d # cs))"
      by (auto split: if_splits)
    with False "3.IH"(2) show ?thesis
      by (simp add: fromCodePoint_unit)
  qed
qed

lemma codePoints_inj:
  assumes "wellFormed a" and "wellFormed b" and "codePoints a = codePoints b"
  shows "a = b"
proof -
  let ?f = "\<lambda>p. case p of None \<Rightarrow> [] | Some cp \<Rightarrow> fromCodePoint cp"
  have "a = concat (map ?f (codePoints a))"
    using codePoints_inverse [OF assms(1)] by (rule sym)
  also have "\<dots> = concat (map ?f (codePoints b))"
    by (simp only: assms(3))
  also have "\<dots> = b"
    using assms(2) by (rule codePoints_inverse)
  finally show ?thesis .
qed

lemma encodePoints_Inr_iff: "(\<exists>enc. encodePoints cps = Inr enc) \<longleftrightarrow> None \<notin> set cps"
  by (induction cps rule: encodePoints.induct) (auto split: sum.splits)

lemma encodeURIComponent_wellFormed:
  "(\<exists>enc. encodeURIComponent s = Inr enc) \<longleftrightarrow> wellFormed s"
  by (simp add: wellFormed_def encodeURIComponent_def encodePoints_Inr_iff)

lemma encodeURIComponent_inj:
  assumes "encodeURIComponent a = Inr s" and "encodeURIComponent b = Inr s"
  shows "a = b"
proof -
  from assms have wa: "wellFormed a" and wb: "wellFormed b"
    using encodeURIComponent_wellFormed by blast+
  from assms have "codePoints a = codePoints b"
    unfolding encodeURIComponent_def
    by (rule encodePoints_inj) (auto dest: codePoints_bound)
  with wa wb show ?thesis
    by (rule codePoints_inj)
qed

lemma encoded_distinct:
  assumes "list_all2 (\<lambda>t enc. encodeURIComponent t = Inr enc) ts encs" and "distinct ts"
  shows "distinct encs"
  using assms
proof (induction rule: list_all2_induct)
  case Nil
  show ?case by simp
next
  case (Cons t ts enc encs)
  have "enc \<notin> set encs"
  proof
    assume "enc \<in> set encs"
    then obtain i where i: "i < length encs" and "encs ! i = enc"
      by (auto simp: in_set_conv_nth)
    with Cons.hyps(2) have "encodeURIComponent (ts ! i) = Inr enc" and "i < length ts"
      by (auto simp: list_all2_conv_all_nth)
    with Cons.hyps(1) have "ts ! i = t"
      by (auto intro: encodeURIComponent_inj)
    with \<open>i < length ts\<close> Cons.prems show False
      by auto
  qed
  with Cons show ?case
    by simp
qed

subsection \<open>The request of ingest_from_finnhub\<close>

lemma tickers_parts:
  assumes "\<forall>t \<in> set cl. wellFormed t"
  shows "\<exists>encs. list_all2 (\<lambda>t enc. encodeURIComponent t = Inr enc) cl encs \<and>
           mapThrowing (\<lambda>t. case encodeURIComponent t of
                               Inl err \<Rightarrow> Inl err
                             | Inr t' \<Rightarrow> Inr (js ''tickers='' @ t')) cl =
             Inr (map (\<lambda>enc. js ''tickers='' @ enc) encs)"
  using assms
proof (induction cl)
  case Nil
  show ?case by simp
next
  case (Cons t cl)
  then obtain encs where e: "list_all2 (\<lambda>t enc. encodeURIComponent t = Inr enc) cl encs"
    and m: "mapThrowing (\<lambda>t. case encodeURIComponent t of
                               Inl err \<Rightarrow> Inl err
                             | Inr t' \<Rightarrow> Inr (js ''tickers='' @ t')) cl =
             Inr (map (\<lambda>enc. js ''tickers='' @ enc) encs)"
    by auto
  from Cons.prems obtain enc where t: "encodeURIComponent t = Inr enc"
    using encodeURIComponent_wellFormed by auto
  show ?case
    by (rule exI [of _ "enc # encs"]) (simp add: e m t)
qed

lemma tickers_parts_conv:
  assumes "mapThrowing (\<lambda>t. case encodeURIComponent t of
                               Inl err \<Rightarrow> Inl err
                             | Inr t' \<Rightarrow> Inr (js ''tickers='' @ t')) cl = Inr parts"
  shows "\<exists>encs. list_all2 (\<lambda>t enc. encodeURIComponent t = Inr enc) cl encs \<and>
           parts = map (\<lambda>enc. js ''tickers='' @ enc) encs"
  using assms
proof (induction cl arbitrary: parts)
  case Nil
  then show ?case by simp
next
  case (Cons t cl)
  from Cons.prems obtain enc rest where t: "encodeURIComponent t = Inr enc"
    and m: "mapThrowing (\<lambda>t. case encodeURIComponent t of
                               Inl err \<Rightarrow> Inl err
                             | Inr t' \<Rightarrow> Inr (js ''tickers='' @ t')) cl = Inr rest"
    and p: "parts = (js ''tickers='' @ enc) # rest"
    by (auto split: sum.splits)
  from Cons.IH [OF m] obtain encs
    where "list_all2 (\<lambda>t enc. encodeURIComponent t = Inr enc) cl encs"
      and "rest = map (\<lambda>enc. js ''tickers='' @ enc) encs"
    by blast
  with t p show ?case
    by (intro exI [of _ "enc # encs"]) simp
qed

text \<open>
  C3, as the code has it. For an array of 1 to 50 strings whose cleaned list is not empty
  and holds well-formed strings only: the cleaned list has no duplicates, consists of the
  non-empty trimmed and upper-cased entries and has at most 50 entries, and the handler
  issues one GET to \<^verbatim>\<open>/ingest/finnhub\<close> whose query is the parameters
  \<^verbatim>\<open>tickers=<percent-encoded entry>\<close>, one per cleaned entry, joined by \<^verbatim>\<open>&\<close>.
\<close>

theorem ingest_request:
  assumes "validArgs (Ingest_from_finnhub tickers :: 'n tool_call)"
    and "cleaned (E :: 'n engine) tickers \<noteq> []"
    and "\<forall>t \<in> set (cleaned E tickers). wellFormed t"
  shows "distinct (cleaned E tickers) \<and>
         set (cleaned E tickers) = (\<lambda>t. toUpperCase E (trim t)) ` set tickers - {[]} \<and>
         length (cleaned E tickers) \<le> 50 \<and>
         (\<exists>encs. list_all2 (\<lambda>t enc. encodeURIComponent t = Inr enc) (cleaned E tickers) encs \<and>
            requests (ingest_from_finnhub E e backend tickers) =
              [\<lparr>method = GET,
                url = normalizeBase e @ js ''/ingest/finnhub?'' @
                      join (js ''&'') (map (\<lambda>enc. js ''tickers='' @ enc) encs),
                headers = [(js ''cache-control'', js ''no-store'')],
                cf = Some \<lparr>cacheTtl = 0, cacheEverything = False\<rparr>,
                body = None\<rparr>])"
proof -
  from assms(1) have len: "length tickers \<le> 50"
    by simp
  let ?xs = "filter (\<lambda>t. t \<noteq> []) (map (\<lambda>t. toUpperCase E (trim t)) tickers)"
  have c: "cleaned E tickers = arrayFromSet ?xs"
    using len by (rule cleaned_no_truncation)
  have d: "distinct (cleaned E tickers)"
    unfolding c by (simp add: arrayFromSet_def distinct_setInsertAll)
  have s: "set (cleaned E tickers) = (\<lambda>t. toUpperCase E (trim t)) ` set tickers - {[]}"
    unfolding c by (auto simp: arrayFromSet_def set_setInsertAll)
  have l: "length (cleaned E tickers) \<le> 50"
    by (simp add: cleaned_def)
  from tickers_parts [OF assms(3)] obtain encs
    where e: "list_all2 (\<lambda>t enc. encodeURIComponent t = Inr enc) (cleaned E tickers) encs"
      and m: "mapThrowing (\<lambda>t. case encodeURIComponent t of
                               Inl err \<Rightarrow> Inl err
                             | Inr t' \<Rightarrow> Inr (js ''tickers='' @ t')) (cleaned E tickers) =
             Inr (map (\<lambda>enc. js ''tickers='' @ enc) encs)"
    by blast
  have r: "requests (ingest_from_finnhub E e backend tickers) =
              [\<lparr>method = GET,
                url = normalizeBase e @ js ''/ingest/finnhub?'' @
                      join (js ''&'') (map (\<lambda>enc. js ''tickers='' @ enc) encs),
                headers = [(js ''cache-control'', js ''no-store'')],
                cf = Some \<lparr>cacheTtl = 0, cacheEverything = False\<rparr>,
                body = None\<rparr>]"
    using assms(2)
    by (simp add: run_simps ingest_from_finnhub_def Let_def m split: option.splits)
  from d s l e r show ?thesis
    by blast
qed

theorem ingest_request_witness:
  "validArgs (Ingest_from_finnhub [js ''aapl'', js ''AAPL'', js '' msft ''] :: int tool_call) \<and>
   cleaned asciiEngine [js ''aapl'', js ''AAPL'', js '' msft ''] = [js ''AAPL'', js ''MSFT''] \<and>
   distinct (cleaned asciiEngine [js ''aapl'', js ''AAPL'', js '' msft '']) \<and>
   requests (ingest_from_finnhub asciiEngine exampleEnv (respond emptyObject)
       [js ''aapl'', js ''AAPL'', js '' msft '']) =
     [\<lparr>method = GET,
       url = js ''https://api.example.com/ingest/finnhub?tickers=AAPL&tickers=MSFT'',
       headers = [(js ''cache-control'', js ''no-store'')],
       cf = Some \<lparr>cacheTtl = 0, cacheEverything = False\<rparr>, body = None\<rparr>]"
proof -
  let ?ts = "[js ''aapl'', js ''AAPL'', js '' msft '']"
  have v: "validArgs (Ingest_from_finnhub ?ts :: int tool_call)"
    by simp
  have c: "cleaned asciiEngine ?ts = [js ''AAPL'', js ''MSFT'']"
    by code_simp
  have n: "cleaned asciiEngine ?ts \<noteq> []"
    unfolding c by simp
  have w: "\<forall>t \<in> set (cleaned asciiEngine ?ts). wellFormed t"
    unfolding c by code_simp
  have r: "requests (ingest_from_finnhub asciiEngine exampleEnv (respond emptyObject) ?ts) =
     [\<lparr>method = GET,
       url = js ''https://api.example.com/ingest/finnhub?tickers=AAPL&tickers=MSFT'',
       headers = [(js ''cache-control'', js ''no-store'')],
       cf = Some \<lparr>cacheTtl = 0, cacheEverything = False\<rparr>, body = None\<rparr>]"
    by code_simp
  from ingest_request [OF v n w, of exampleEnv "respond emptyObject"]
  have "distinct (cleaned asciiEngine ?ts)"
    by (rule conjunct1)
  with v c r show ?thesis
    by (intro conjI)
qed

text \<open>
  The array \<^verbatim>\<open>["   ", ""]\<close> is a valid input, and the handler issues no request for it.
\<close>

theorem ingest_blank_tickers_counterexample:
  "validArgs (Ingest_from_finnhub [js ''   '', js ''''] :: int tool_call) \<and>
   requests (ingest_from_finnhub asciiEngine exampleEnv (respond emptyObject)
     [js ''   '', js '''']) = []"
  by code_simp

subsection \<open>The order of the tickers\<close>

text \<open>
  C10. When \<^verbatim>\<open>ingest_from_finnhub\<close> issues its request for a valid input, the query is the
  parameters \<^verbatim>\<open>tickers=<percent-encoded entry>\<close> of the non-empty trimmed and upper-cased
  entries in the order of their first occurrences, each value once: the encoded values
  are pairwise different.
\<close>

theorem ingest_first_occurrence_order:
  assumes "validArgs (Ingest_from_finnhub tickers :: 'n tool_call)"
    and "requests (ingest_from_finnhub (E :: 'n engine) e backend tickers) = [rq]"
  shows "\<exists>encs.
           list_all2 (\<lambda>t enc. encodeURIComponent t = Inr enc)
             (firstOccurrences
                (filter (\<lambda>t. t \<noteq> []) (map (\<lambda>t. toUpperCase E (trim t)) tickers))) encs \<and>
           distinct encs \<and>
           url rq = normalizeBase e @ js ''/ingest/finnhub?'' @
                    join (js ''&'') (map (\<lambda>enc. js ''tickers='' @ enc) encs)"
proof -
  from assms(1) have "length tickers \<le> 50"
    by simp
  then have c: "cleaned E tickers =
      firstOccurrences (filter (\<lambda>t. t \<noteq> []) (map (\<lambda>t. toUpperCase E (trim t)) tickers))"
    by (simp add: cleaned_no_truncation arrayFromSet_firstOccurrences)
  from assms(2) obtain parts
    where m: "mapThrowing (\<lambda>t. case encodeURIComponent t of
                               Inl err \<Rightarrow> Inl err
                             | Inr t' \<Rightarrow> Inr (js ''tickers='' @ t')) (cleaned E tickers) =
                Inr parts"
      and u: "url rq = normalizeBase e @ js ''/ingest/finnhub?'' @ join (js ''&'') parts"
    by (auto simp: run_simps ingest_from_finnhub_def Let_def
          split: if_splits sum.splits)
  from tickers_parts_conv [OF m] obtain encs
    where e: "list_all2 (\<lambda>t enc. encodeURIComponent t = Inr enc) (cleaned E tickers) encs"
      and p: "parts = map (\<lambda>enc. js ''tickers='' @ enc) encs"
    by blast
  have "distinct (cleaned E tickers)"
    unfolding c by (rule distinct_firstOccurrences)
  with e have "distinct encs"
    by (rule encoded_distinct)
  with e u p show ?thesis
    unfolding c by blast
qed

theorem ingest_first_occurrence_order_witness:
  "validArgs (Ingest_from_finnhub
     [js ''msft'', js ''aapl'', js ''MSFT '', js ''goog'', js ''aapl''] :: int tool_call) \<and>
   requests (ingest_from_finnhub asciiEngine exampleEnv (respond emptyObject)
       [js ''msft'', js ''aapl'', js ''MSFT '', js ''goog'', js ''aapl'']) =
     [\<lparr>method = GET,
       url = js ''https://api.example.com/ingest/finnhub?tickers=MSFT&tickers=AAPL&tickers=GOOG'',
       headers = [(js ''cache-control'', js ''no-store'')],
       cf = Some \<lparr>cacheTtl = 0, cacheEverything = False\<rparr>, body = None\<rparr>] \<and>
   js ''https://api.example.com/ingest/finnhub?tickers=MSFT&tickers=AAPL&tickers=GOOG'' =
     normalizeBase exampleEnv @ js ''/ingest/finnhub?'' @
       join (js ''&'') (map (\<lambda>enc. js ''tickers='' @ enc) [js ''MSFT'', js ''AAPL'', js ''GOOG''])"
proof -
  let ?ts = "[js ''msft'', js ''aapl'', js ''MSFT '', js ''goog'', js ''aapl'']"
  let ?u = "js ''https://api.example.com/ingest/finnhub?tickers=MSFT&tickers=AAPL&tickers=GOOG''"
  let ?rq = "\<lparr>method = GET, url = ?u,
               headers = [(js ''cache-control'', js ''no-store'')],
               cf = Some \<lparr>cacheTtl = 0, cacheEverything = False\<rparr>, body = None\<rparr>"
  have v: "validArgs (Ingest_from_finnhub ?ts :: int tool_call)"
    by simp
  have r: "requests (ingest_from_finnhub asciiEngine exampleEnv (respond emptyObject) ?ts) = [?rq]"
    by code_simp
  have f: "firstOccurrences
             (filter (\<lambda>t. t \<noteq> []) (map (\<lambda>t. toUpperCase asciiEngine (trim t)) ?ts)) =
           [js ''MSFT'', js ''AAPL'', js ''GOOG'']"
    by code_simp
  have e: "encodeURIComponent (js ''MSFT'') = Inr (js ''MSFT'')"
    "encodeURIComponent (js ''AAPL'') = Inr (js ''AAPL'')"
    "encodeURIComponent (js ''GOOG'') = Inr (js ''GOOG'')"
    by code_simp+
  from ingest_first_occurrence_order [OF v r] obtain encs
    where a: "list_all2 (\<lambda>t enc. encodeURIComponent t = Inr enc)
                [js ''MSFT'', js ''AAPL'', js ''GOOG''] encs"
      and u: "url ?rq = normalizeBase exampleEnv @ js ''/ingest/finnhub?'' @
                join (js ''&'') (map (\<lambda>enc. js ''tickers='' @ enc) encs)"
    unfolding f by blast
  from a have "encs = [js ''MSFT'', js ''AAPL'', js ''GOOG'']"
    by (auto simp: list_all2_Cons1 e)
  with u have "?u = normalizeBase exampleEnv @ js ''/ingest/finnhub?'' @
      join (js ''&'') (map (\<lambda>enc. js ''tickers='' @ enc) [js ''MSFT'', js ''AAPL'', js ''GOOG''])"
    by simp
  with v r show ?thesis
    by (intro conjI)
qed

subsection \<open>One request per call\<close>

lemma get_asset_details_requests:
  assumes "wellFormed ticker"
  shows "length (requests (get_asset_details E e backend ticker)) = 1"
proof -
  from assms obtain enc where "encodeURIComponent ticker = Inr enc"
    using encodeURIComponent_wellFormed by blast
  then show ?thesis
    by (auto simp: run_simps get_asset_details_def Let_def split: option.splits sum.splits)
qed

lemma run_fundamentals_requests:
  assumes "wellFormed ticker"
  shows "length (requests (run_fundamentals E e backend ticker)) = 1"
proof -
  from assms obtain enc where "encodeURIComponent ticker = Inr enc"
    using encodeURIComponent_wellFormed by blast
  then show ?thesis
    by (auto simp: run_simps run_fundamentals_def Let_def split: option.splits sum.splits)
qed

lemma ingest_from_finnhub_requests:
  assumes "\<forall>t \<in> set (cleaned E tickers). wellFormed t"
  shows "length (requests (ingest_from_finnhub E e backend tickers)) =
           (if cleaned E tickers = [] then 0 else 1)"
proof -
  from tickers_parts [OF assms] obtain encs
    where "mapThrowing (\<lambda>t. case encodeURIComponent t of
                               Inl err \<Rightarrow> Inl err
                             | Inr t' \<Rightarrow> Inr (js ''tickers='' @ t')) (cleaned E tickers) =
             Inr (map (\<lambda>enc. js ''tickers='' @ enc) encs)"
    by blast
  then show ?thesis
    by (auto simp: run_simps ingest_from_finnhub_def Let_def split: option.splits)
qed

lemma handler_requests_wellFormed:
  assumes "wellFormedArgs E c"
  shows "length (requests (handler E e backend c)) = (if zeroRequestCall E c then 0 else 1)"
proof (cases c)
  case (Config_error args)
  then show ?thesis
    by (simp add: run_simps config_error_def)
next
  case (List_universe sector limit)
  then show ?thesis
    by (auto simp: run_simps list_universe_def Let_def split: option.splits)
next
  case (Explain_universe risk universe)
  then show ?thesis
    by (auto simp: run_simps explain_universe_def Let_def split: option.splits)
next
  case (Get_asset_details ticker)
  with assms show ?thesis
    by (simp add: get_asset_details_requests)
next
  case (Search_assets q limit)
  then show ?thesis
    by (auto simp: run_simps search_assets_def Let_def split: option.splits)
next
  case (Ingest_from_finnhub tickers)
  with assms show ?thesis
    by (simp add: ingest_from_finnhub_requests)
next
  case (Run_fundamentals ticker)
  with assms show ?thesis
    by (simp add: run_fundamentals_requests)
qed

lemma handler_requests_reply:
  "length (requests (handler E e backend c)) \<le> 1 \<and>
   (\<forall>rep. result (handler E e backend c) = Inr rep \<longrightarrow>
      length (requests (handler E e backend c)) = (if zeroRequestCall E c then 0 else 1))"
  by (cases c)
     (auto simp: run_simps handler_defs Let_def
           split: sum.splits if_splits option.splits)

text \<open>
  C8, as the code has it. A call of a registered tool issues at most one request. When
  the strings it hands to \<^verbatim>\<open>encodeURIComponent\<close> are well formed, and whenever it returns a
  reply, it issues exactly one request, except that it issues none when the tool is
  \<^verbatim>\<open>config_error\<close> (registered in degraded mode only) or when it is \<^verbatim>\<open>ingest_from_finnhub\<close>
  and the cleaned ticker list is empty. This holds also when the handler ends with an
  exception after \<^verbatim>\<open>fetch\<close>.
\<close>

theorem one_request_per_call:
  assumes "callTool E e backend c = Some r"
  shows "length (requests r) \<le> 1 \<and>
         (wellFormedArgs E c \<longrightarrow>
            length (requests r) = (if zeroRequestCall E c then 0 else 1)) \<and>
         (\<forall>rep. result r = Inr rep \<longrightarrow>
            length (requests r) = (if zeroRequestCall E c then 0 else 1))"
proof -
  from assms have r: "r = handler E e backend c"
    by (auto simp: callTool_def split: if_splits)
  show ?thesis
    unfolding r using handler_requests_reply [of E e backend c]
    by (simp add: handler_requests_wellFormed)
qed

theorem one_request_per_call_witness:
  "callTool asciiEngine exampleEnv (respond emptyObject) (Search_assets (js ''ibm'') 10) =
     Some (handler asciiEngine exampleEnv (respond emptyObject) (Search_assets (js ''ibm'') 10)) \<and>
   length (requests (handler asciiEngine exampleEnv (respond emptyObject)
     (Search_assets (js ''ibm'') 10))) = 1 \<and>
   length (requests (handler asciiEngine exampleEnv (respond emptyObject)
     (Ingest_from_finnhub [js ''   '', js '''']))) = 0 \<and>
   length (requests (handler asciiEngine \<lparr>API_BASE = None\<rparr> (respond emptyObject)
     (Config_error JNull))) = 0 \<and>
   wellFormedArgs asciiEngine (Run_fundamentals (js ''IBM'')) \<and>
   result (handler asciiEngine exampleEnv (respond notJson) (Run_fundamentals (js ''IBM''))) =
     Inl SyntaxError \<and>
   length (requests (handler asciiEngine exampleEnv (respond notJson)
     (Run_fundamentals (js ''IBM'')))) = 1"
proof -
  let ?c1 = "Search_assets (js ''ibm'') 10 :: int tool_call"
  let ?c2 = "Ingest_from_finnhub [js ''   '', js ''''] :: int tool_call"
  let ?c3 = "Config_error JNull :: int tool_call"
  let ?c4 = "Run_fundamentals (js ''IBM'') :: int tool_call"
  let ?d = "\<lparr>API_BASE = None\<rparr>"
  have c1: "callTool asciiEngine exampleEnv (respond emptyObject) ?c1 =
              Some (handler asciiEngine exampleEnv (respond emptyObject) ?c1)"
    by code_simp
  have c2: "callTool asciiEngine exampleEnv (respond emptyObject) ?c2 =
              Some (handler asciiEngine exampleEnv (respond emptyObject) ?c2)"
    by code_simp
  have c3: "callTool asciiEngine ?d (respond emptyObject) ?c3 =
              Some (handler asciiEngine ?d (respond emptyObject) ?c3)"
    by code_simp
  have c4: "callTool asciiEngine exampleEnv (respond notJson) ?c4 =
              Some (handler asciiEngine exampleEnv (respond notJson) ?c4)"
    by code_simp
  have r1: "result (handler asciiEngine exampleEnv (respond emptyObject) ?c1) =
              Inr (textReply (JStr (js ''[]'')))"
    by code_simp
  have r2: "result (handler asciiEngine exampleEnv (respond emptyObject) ?c2) =
              Inr (textReply (JStr (js ''No valid tickers provided.'')))"
    by code_simp
  have r3: "result (handler asciiEngine ?d (respond emptyObject) ?c3) =
              Inr (textReply (JStr
                (js ''Missing API_BASE env var. Set it in wrangler.jsonc under 'vars'.'')))"
    by code_simp
  have r4: "result (handler asciiEngine exampleEnv (respond notJson) ?c4) = Inl SyntaxError"
    by code_simp
  have w4: "wellFormedArgs asciiEngine ?c4"
    by code_simp
  have z: "\<not> zeroRequestCall asciiEngine ?c1" "zeroRequestCall asciiEngine ?c2"
    "zeroRequestCall asciiEngine ?c3" "\<not> zeroRequestCall asciiEngine ?c4"
    by code_simp+
  show ?thesis
    using one_request_per_call [OF c1] one_request_per_call [OF c2] one_request_per_call [OF c3]
      one_request_per_call [OF c4] c1 r1 r2 r3 r4 w4 z
    by simp
qed

text \<open>
  The ticker \<^verbatim>\<open>"A\ud83d"\<close> passes the schema of \<^verbatim>\<open>get_asset_details\<close>; the call issues no
  request, and it is neither of the two kinds of call above.
\<close>

theorem surrogate_ticker_counterexample:
  "callTool asciiEngine exampleEnv (respond emptyObject) (Get_asset_details [0x41, 0xD83D]) =
     Some \<lparr>requests = [], result = Inl URIError\<rparr> \<and>
   zeroRequestCall asciiEngine (Get_asset_details [0x41, 0xD83D] :: int tool_call) = False"
  by code_simp

subsection \<open>Further properties\<close>

lemma encodePoints_Inl: "encodePoints cps = Inl err \<Longrightarrow> err = URIError"
  by (induction cps arbitrary: err rule: encodePoints.induct) (auto split: sum.splits)

lemma encodeURIComponent_throws:
  assumes "\<not> wellFormed s"
  shows "encodeURIComponent s = Inl URIError"
proof (cases "encodeURIComponent s")
  case (Inl err)
  then show ?thesis
    by (auto simp: encodeURIComponent_def dest: encodePoints_Inl)
next
  case (Inr enc)
  with assms show ?thesis
    using encodeURIComponent_wellFormed by blast
qed

text \<open>
  A ticker with a surrogate that is not part of a pair: \<^verbatim>\<open>get_asset_details\<close> and
  \<^verbatim>\<open>run_fundamentals\<close> throw the \<^verbatim>\<open>URIError\<close> of \<^verbatim>\<open>encodeURIComponent\<close> before they call
  \<^verbatim>\<open>fetch\<close>; they issue no request and return no reply.
\<close>

theorem unpaired_surrogate_throws:
  assumes "\<not> wellFormed ticker"
  shows "get_asset_details E e backend ticker = \<lparr>requests = [], result = Inl URIError\<rparr> \<and>
         run_fundamentals E e backend ticker = \<lparr>requests = [], result = Inl URIError\<rparr>"
  using encodeURIComponent_throws [OF assms]
  by (simp add: get_asset_details_def run_fundamentals_def finish_def)

theorem unpaired_surrogate_throws_witness:
  "\<not> wellFormed [0x41, 0xD83D] \<and>
   get_asset_details asciiEngine exampleEnv (respond emptyObject) [0x41, 0xD83D] =
     \<lparr>requests = [], result = Inl URIError\<rparr> \<and>
   run_fundamentals asciiEngine exampleEnv (respond emptyObject) [0x41, 0xD83D] =
     \<lparr>requests = [], result = Inl URIError\<rparr>"
proof -
  have w: "\<not> wellFormed [0x41, 0xD83D]"
    by code_simp
  show ?thesis
    using w unpaired_surrogate_throws [OF w, of asciiEngine exampleEnv "respond emptyObject"]
    by simp
qed

text \<open>
  Every reply a handler returns has exactly one content block, and its type is
  \<^verbatim>\<open>text\<close>.
\<close>

theorem reply_one_text_block:
  assumes "result (handler E e backend c) = Inr rep"
  shows "\<exists>t. content rep = [\<lparr>type = js ''text'', text = t\<rparr>]"
  using assms
  by (cases c)
     (auto simp: run_simps handler_defs textReply_def Let_def
           split: sum.splits if_splits option.splits)

theorem reply_one_text_block_witness:
  "result (handler asciiEngine exampleEnv (respond emptyObject) (Get_asset_details (js ''AAPL''))) =
     Inr \<lparr>content = [\<lparr>type = js ''text'', text = JUndefined\<rparr>]\<rparr> \<and>
   length (content \<lparr>content = [\<lparr>type = js ''text'', text = (JUndefined :: int jsvalue)\<rparr>]\<rparr>) = 1"
proof -
  let ?rep = "\<lparr>content = [\<lparr>type = js ''text'', text = (JUndefined :: int jsvalue)\<rparr>]\<rparr>"
  have r: "result (handler asciiEngine exampleEnv (respond emptyObject)
             (Get_asset_details (js ''AAPL''))) = Inr ?rep"
    by code_simp
  from reply_one_text_block [OF r] obtain t
    where "content ?rep = [\<lparr>type = js ''text'', text = t\<rparr>]"
    by blast
  then have "length (content ?rep) = 1"
    by simp
  with r show ?thesis
    by (intro conjI)
qed

end
